theory Spec2Isabelle
  imports Main
begin

section \<open>Values, errors and the file system\<close>

text \<open>
  The script \<^verbatim>\<open>gen_msix_xml.py\<close> is one linear module: it reads a JSON manifest, resolves a
  certificate subject, copies two logo files, and writes up to two XML files. The model
  starts after \<^verbatim>\<open>json.load\<close> (line 60) and follows the module top to bottom.

  \<^item> A Python \<^verbatim>\<open>str\<close> and a \<^verbatim>\<open>bytes\<close> object are both lists of \<^typ>\<open>char\<close>, so a
    \<^verbatim>\<open>str\<close> here has code points below 256 only.
  \<^item> A path is the list of components that identifies a file or directory: two paths are the
    same file exactly when they are equal. The directories given on the command line are
    taken in that form, and joining one of the script's own fixed names appends a component.
    A name that comes from the JSON document is turned into a path by the library
    (\<open>path_join\<close> below), since the file it reaches depends on the path flavour. Symbolic
    links are not modelled. The empty list is the current directory.
  \<^item> The file system maps a path to a file with its bytes or to a directory. Permissions and
    full disks are not modelled: an operation fails only for the reasons written out.
  \<^item> JSON numbers are integers.
  \<^item> \<^verbatim>\<open>powershell.exe\<close> is assumed to start; what it returns is an input.
  \<^item> \<^verbatim>\<open>print\<close> calls are left out.
\<close>

type_synonym bytes = string
type_synonym path = "string list"

datatype json =
    JNull
  | JBool bool
  | JInt int
  | JStr string
  | JArr "json list"
  | JObj "(string \<times> json) list"

text \<open>
  An assertion message is an f-string: literal text with interpolated values. The
  interpolated values are kept as they are (Python renders them with \<^verbatim>\<open>str\<close>).
\<close>

datatype fpart = Lit string | FInt int | FPath path | FLines "string list"

datatype error =
    AssertionError "fpart list"
  | KeyError string
  | TypeError
  | AttributeError
  | CalledProcessError int
  | UnicodeDecodeError
  | OSError

datatype node = File bytes | Dir

type_synonym filesystem = "path \<Rightarrow> node option"

text \<open>A step that may raise and may change the file system; the file system survives a raise.\<close>

type_synonym 'a io = "filesystem \<Rightarrow> (error + 'a) \<times> filesystem"

definition then_do :: "error + 'a \<Rightarrow> ('a \<Rightarrow> error + 'b) \<Rightarrow> error + 'b" where
  "then_do r f = (case r of Inl e \<Rightarrow> Inl e | Inr x \<Rightarrow> f x)"

definition lift :: "error + 'a \<Rightarrow> 'a io" where
  "lift r fs = (r, fs)"

definition bind_io :: "'a io \<Rightarrow> ('a \<Rightarrow> 'b io) \<Rightarrow> 'b io" where
  "bind_io m f fs = (case m fs of (Inl e, fs') \<Rightarrow> (Inl e, fs') | (Inr x, fs') \<Rightarrow> f x fs')"

definition LF :: char where "LF = CHR 0x0A"
definition CR :: char where "CR = CHR 0x0D"
definition SP :: char where "SP = CHR 0x20"

section \<open>JSON values as Python sees them\<close>

text \<open>
  \<^verbatim>\<open>d[k]\<close> with a string key: a dict gives the value or raises \<^verbatim>\<open>KeyError\<close>; every other
  JSON value raises \<^verbatim>\<open>TypeError\<close>. A dict made by \<^verbatim>\<open>json.load\<close> is an association list
  read with \<^const>\<open>map_of\<close>.
\<close>

definition subscript :: "json \<Rightarrow> string \<Rightarrow> error + json" where
  "subscript d k =
     (case d of
        JObj kvs \<Rightarrow> (case map_of kvs k of None \<Rightarrow> Inl (KeyError k) | Some v \<Rightarrow> Inr v)
      | _ \<Rightarrow> Inl TypeError)"

definition subscript2 :: "json \<Rightarrow> string \<Rightarrow> string \<Rightarrow> error + json" where
  "subscript2 d k1 k2 = then_do (subscript d k1) (\<lambda>v. subscript v k2)"

definition subscript3 :: "json \<Rightarrow> string \<Rightarrow> string \<Rightarrow> string \<Rightarrow> error + json" where
  "subscript3 d k1 k2 k3 = then_do (subscript2 d k1 k2) (\<lambda>v. subscript v k3)"

text \<open>The truth value Python gives a JSON value in \<^verbatim>\<open>if v:\<close>.\<close>

fun truthy :: "json \<Rightarrow> bool" where
  "truthy JNull = False"
| "truthy (JBool b) = b"
| "truthy (JInt n) = (n \<noteq> 0)"
| "truthy (JStr s) = (s \<noteq> [])"
| "truthy (JArr xs) = (xs \<noteq> [])"
| "truthy (JObj kvs) = (kvs \<noteq> [])"

text \<open>\<^verbatim>\<open>s.split(c)\<close> for a one-character separator: never empty, one more piece than separators.\<close>

fun split_on :: "char \<Rightarrow> string \<Rightarrow> string list" where
  "split_on c [] = [[]]"
| "split_on c (x # xs) =
     (if x = c then [] # split_on c xs
      else (x # hd (split_on c xs)) # tl (split_on c xs))"

text \<open>\<^verbatim>\<open>v.split(".")\<close> on a value taken from the JSON document: only a \<^verbatim>\<open>str\<close> has the method.\<close>

definition split_dot :: "json \<Rightarrow> error + string list" where
  "split_dot v = (case v of JStr s \<Rightarrow> Inr (split_on (CHR ''.'') s) | _ \<Rightarrow> Inl AttributeError)"

section \<open>XML trees\<close>

text \<open>
  An \<^verbatim>\<open>ElementTree.Element\<close>: tag, attributes in insertion order, text (\<^const>\<open>JNull\<close> is
  Python's \<^verbatim>\<open>None\<close>) and children. Attribute values and text are the Python values the
  script stores; the library looks at them only when it serializes.
\<close>

datatype xml = Element (tag: string) (attrib: "(string \<times> json) list") (elem_text: json) (children: "xml list")

definition find_child :: "string \<Rightarrow> xml \<Rightarrow> xml option" where
  "find_child t e = find (\<lambda>c. tag c = t) (children e)"

definition get_attr :: "string \<Rightarrow> xml \<Rightarrow> json option" where
  "get_attr k e = map_of (attrib e) k"

text \<open>Following child tags down from an element, taking the first child with each tag.\<close>

fun descend :: "string list \<Rightarrow> xml \<Rightarrow> xml option" where
  "descend [] e = Some e"
| "descend (t # ts) e = (case find_child t e of None \<Rightarrow> None | Some c \<Rightarrow> descend ts c)"

section \<open>The standard library and the command line\<close>

text \<open>
  What the script asks of Python's standard library, and this repository does not contain:
  \<^item> \<open>xml_write\<close>: \<^verbatim>\<open>ET.indent(tree)\<close> and the serialization done by \<^verbatim>\<open>tree.write\<close> on an
    opened file: the bytes that reach the file, and the exception raised on the way, if any;
  \<^item> \<open>url_path_name\<close>: \<^verbatim>\<open>PurePosixPath(urlparse(v).path).name\<close>;
  \<^item> \<open>path_join\<close>: \<^verbatim>\<open>dest_dir / name\<close> for a name taken from a URL, as the file it reaches.
    The name is arbitrary text, and what file it reaches depends on the path flavour: on
    Windows a name that differs in case, starts with a dot component or is absolute reaches a file
    that appending the name as one component does not describe. Joining one of the script's
    own fixed names (\<^verbatim>\<open>msix_assets\<close>, the logo names, \<^verbatim>\<open>AppxManifest.xml\<close>) appends a
    component;
  \<^item> \<open>path_str\<close>: \<^verbatim>\<open>str\<close> of a relative \<^verbatim>\<open>Path\<close>;
  \<^item> \<open>py_str\<close>: \<^verbatim>\<open>str(v)\<close>; \<open>str_lower\<close>: \<^verbatim>\<open>s.lower()\<close>.
\<close>

record pylib =
  xml_write :: "xml \<Rightarrow> bytes \<times> error option"
  url_path_name :: "json \<Rightarrow> error + string"
  path_join :: "path \<Rightarrow> string \<Rightarrow> path"
  path_str :: "path \<Rightarrow> string"
  py_str :: "json \<Rightarrow> string"
  str_lower :: "string \<Rightarrow> string"

text \<open>
  The parsed command line. \<open>destination_dir\<close> and \<open>logo_dir\<close> are the \<^verbatim>\<open>Path\<close> objects
  made from the arguments; the \<^verbatim>\<open>--manifest\<close> file is already loaded.
\<close>

record parsed_args =
  destination_dir :: path
  app_version :: string
  logo_dir :: path
  cert_subject :: "string option"
  cert_path :: "string option"
  no_manifest :: bool
  gen_installer :: bool

section \<open>get_cert_subject (lines 65 to 107)\<close>

text \<open>
  \<^verbatim>\<open>subprocess.run(..., capture_output=True, check=True)\<close> gives an exit status and the
  captured standard output; \<open>stdout_decoded\<close> is \<^verbatim>\<open>cert.stdout.decode("utf-8")\<close>,
  \<^const>\<open>None\<close> when the bytes are not UTF-8.
\<close>

record completed_process =
  returncode :: int
  stdout_decoded :: "string option"

text \<open>
  \<^verbatim>\<open>str.splitlines()\<close>: a line ends at a line boundary, \<^verbatim>\<open>\r\n\<close> counts as one, the
  boundaries are dropped, and a boundary at the very end opens no further line. Of Python's
  line boundaries, those that are a \<^typ>\<open>char\<close> are listed.
\<close>

definition is_linebreak :: "char \<Rightarrow> bool" where
  "is_linebreak c \<longleftrightarrow>
     c \<in> {CHR 0x0A, CHR 0x0B, CHR 0x0C, CHR 0x0D, CHR 0x1C, CHR 0x1D, CHR 0x1E, CHR 0x85}"

fun splitlines_from :: "string \<Rightarrow> string \<Rightarrow> string list" where
  "splitlines_from cur [] = (if cur = [] then [] else [cur])"
| "splitlines_from cur (c # cs) =
     (if c = CHR 0x0D \<and> cs \<noteq> [] \<and> hd cs = CHR 0x0A then cur # splitlines_from [] (tl cs)
      else if is_linebreak c then cur # splitlines_from [] cs
      else splitlines_from (cur @ [c]) cs)"

definition splitlines :: "string \<Rightarrow> string list" where
  "splitlines s = splitlines_from [] s"

definition default_cert_path :: string where
  "default_cert_path = ''Cert:'' @ [CHR 0x5C] @ ''LocalMachine'' @ [CHR 0x5C] @ ''*''"

text \<open>Lines 71 to 73: the path to search, the default unless \<^verbatim>\<open>--cert-path\<close> is given and not empty.\<close>

definition searched_cert_path :: "parsed_args \<Rightarrow> string" where
  "searched_cert_path args =
     (if cert_path args \<noteq> None \<and> the (cert_path args) \<noteq> [] then the (cert_path args)
      else default_cert_path)"

text \<open>
  \<open>powershell\<close> is the external \<^verbatim>\<open>powershell.exe\<close> run on the one-line command; the command
  is fixed but for the certificate path, so the path is its argument.
\<close>

definition get_cert_subject :: "parsed_args \<Rightarrow> (string \<Rightarrow> completed_process) \<Rightarrow> error + string" where
  "get_cert_subject args powershell =
     (if cert_subject args \<noteq> None \<and> the (cert_subject args) \<noteq> []
      then Inr (the (cert_subject args))
      else
        (let proc = powershell (searched_cert_path args)
         in if returncode proc \<noteq> 0 then Inl (CalledProcessError (returncode proc))
            else (case stdout_decoded proc of
                    None \<Rightarrow> Inl UnicodeDecodeError
                  | Some text \<Rightarrow>
                      (let pwsh_cert_output = splitlines text
                       in if length pwsh_cert_output = 3
                          then Inr (pwsh_cert_output ! 2)
                          else Inl (AssertionError
                                      [Lit ''Unexpected output from Powershell: '',
                                       FLines pwsh_cert_output])))))"

text \<open>
  The PowerShell program of lines 80 to 85, on the code-signing certificates found under the
  path and the value of \<^verbatim>\<open>Get-Date\<close>: keep the certificates with
  \<^verbatim>\<open>NotBefore < now < NotAfter\<close>, sort them by \<^verbatim>\<open>NotAfter\<close>, take the last one, and
  print three of its properties, one per line. With no certificate left the three property
  reads print nothing. Which of several certificates with equal \<^verbatim>\<open>NotAfter\<close> comes
  last is fixed here by \<^const>\<open>sort_key\<close>; no property below depends on it.
\<close>

record certificate =
  FriendlyName :: string
  Thumbprint :: string
  Subject :: string
  NotBefore :: int
  NotAfter :: int

definition filter_valid_certs :: "int \<Rightarrow> certificate list \<Rightarrow> certificate list" where
  "filter_valid_certs now certs = filter (\<lambda>c. NotBefore c < now \<and> NotAfter c > now) certs"

definition cert_code :: "(string \<Rightarrow> certificate list) \<Rightarrow> int \<Rightarrow> string \<Rightarrow> completed_process" where
  "cert_code store now searched_path =
     (let sorted_certs = sort_key NotAfter (filter_valid_certs now (store searched_path))
      in if sorted_certs = [] then \<lparr>returncode = 0, stdout_decoded = Some []\<rparr>
         else (let chosen = last sorted_certs
               in \<lparr>returncode = 0,
                   stdout_decoded = Some (FriendlyName chosen @ [CR, LF] @ Thumbprint chosen @ [CR, LF]
                                          @ Subject chosen @ [CR, LF])\<rparr>))"

section \<open>The dataclasses (lines 110 to 146)\<close>

text \<open>
  A dataclass does not check its field types: a field filled from the JSON document holds
  whatever value the document has there. Fields filled from a \<^verbatim>\<open>str\<close> are strings.
\<close>

record AppLogo =
  logo_sq_44x44 :: string
  logo_sq_150x150 :: string
  bg_color :: json

record CodeSigningCert =
  publisher :: string

record MsixApplication =
  name :: json
  displayed_name :: json
  description :: json
  version :: string
  cert :: CodeSigningCert
  arch :: json
  logo :: AppLogo
  entrypoint :: json
  displayed_publisher :: json
  min_windows_version :: json
  max_windows_version_tested :: json

record MsixInstaller =
  version :: json
  installer_uri :: json
  appx_uri :: json
  hours_between_update_checks :: json
  show_prompt :: json
  update_blocks_activation :: json
  automatic_background_task :: json
  force_update_from_any_version :: json

section \<open>setup_app_logos (lines 149 to 170)\<close>

definition mkdir_exist_ok :: "path \<Rightarrow> unit io" where
  "mkdir_exist_ok p fs =
     (case fs p of
        Some Dir \<Rightarrow> (Inr (), fs)
      | Some (File c) \<Rightarrow> (Inl OSError, fs)
      | None \<Rightarrow> (if p \<noteq> [] \<and> fs (butlast p) = Some Dir then (Inr (), fs(p \<mapsto> Dir))
                 else (Inl OSError, fs)))"

definition assert_is_dir :: "path \<Rightarrow> fpart list \<Rightarrow> unit io" where
  "assert_is_dir p msg fs = (if fs p = Some Dir then (Inr (), fs) else (Inl (AssertionError msg), fs))"

text \<open>
  \<^verbatim>\<open>shutil.copy(logo_path, pkg_logos_dir)\<close> writes \<^verbatim>\<open>pkg_logos_dir / logo_path.name\<close>; it
  refuses to copy a file onto itself, to read a directory and to write over a directory.
\<close>

definition check_and_copy_logo :: "pylib \<Rightarrow> path \<Rightarrow> path \<Rightarrow> string io" where
  "check_and_copy_logo lib pkg_logos_dir logo_path fs =
     (case fs logo_path of
        None \<Rightarrow> (Inl (AssertionError [Lit ''Expected Logo file not found: '', FPath logo_path]), fs)
      | Some Dir \<Rightarrow> (Inl OSError, fs)
      | Some (File c) \<Rightarrow>
          (let dst = pkg_logos_dir @ [last logo_path]
           in if dst = logo_path \<or> fs dst = Some Dir then (Inl OSError, fs)
              else (Inr (path_str lib [''msix_assets'', last logo_path]), fs(dst \<mapsto> File c))))"

definition setup_app_logos :: "pylib \<Rightarrow> parsed_args \<Rightarrow> path \<Rightarrow> json \<Rightarrow> AppLogo io" where
  "setup_app_logos lib args logos bg =
     (let pkg_logos_dir = destination_dir args @ [''msix_assets''] in
      bind_io (mkdir_exist_ok pkg_logos_dir) (\<lambda>_.
      bind_io (assert_is_dir logos [Lit ''Logo directory not found: '', FPath logos]) (\<lambda>_.
      bind_io (check_and_copy_logo lib pkg_logos_dir (logos @ [''logo_44x44.png''])) (\<lambda>l44.
      bind_io (check_and_copy_logo lib pkg_logos_dir (logos @ [''logo_150x150.png''])) (\<lambda>l150.
      lift (Inr \<lparr>logo_sq_44x44 = l44, logo_sq_150x150 = l150, bg_color = bg\<rparr>))))))"

section \<open>gen_appx_manifest (lines 173 to 237)\<close>

definition gen_appx_manifest :: "MsixApplication \<Rightarrow> error + xml" where
  "gen_appx_manifest app_spec =
     then_do (split_dot (name app_spec)) (\<lambda>name_parts.
       Inr (Element ''Package''
         [(''xmlns'', JStr ''http://schemas.microsoft.com/appx/manifest/foundation/windows10''),
          (''xmlns:uap'', JStr ''http://schemas.microsoft.com/appx/manifest/uap/windows10''),
          (''xmlns:uap10'', JStr ''http://schemas.microsoft.com/appx/manifest/uap/windows10/10''),
          (''xmlns:uap13'', JStr ''http://schemas.microsoft.com/appx/manifest/uap/windows10/13''),
          (''xmlns:rescap'',
           JStr ''http://schemas.microsoft.com/appx/manifest/foundation/windows10/restrictedcapabilities''),
          (''IgnorableNamespaces'', JStr ''uap13'')]
         JNull
         [Element ''Identity''
            [(''Name'', name app_spec),
             (''Version'', JStr (MsixApplication.version app_spec)),
             (''Publisher'', JStr (publisher (cert app_spec))),
             (''ProcessorArchitecture'', arch app_spec)]
            JNull [],
          Element ''Properties'' [] JNull
            [Element ''DisplayName'' [] (displayed_name app_spec) [],
             Element ''PublisherDisplayName'' [] (displayed_publisher app_spec) [],
             Element ''Description'' [] (description app_spec) [],
             Element ''Logo'' [] (JStr (logo_sq_150x150 (logo app_spec))) []],
          Element ''Resources'' [] JNull
            [Element ''Resource'' [(''Language'', JStr ''en-us'')] JNull []],
          Element ''Dependencies'' [] JNull
            [Element ''TargetDeviceFamily''
               [(''Name'', JStr ''Windows.Desktop''),
                (''MinVersion'', min_windows_version app_spec),
                (''MaxVersionTested'', max_windows_version_tested app_spec)]
               JNull []],
          Element ''Capabilities'' [] JNull
            [Element ''rescap:Capability'' [(''Name'', JStr ''runFullTrust'')] JNull []],
          Element ''Applications'' [] JNull
            [Element ''Application''
               [(''Id'', JStr (last name_parts)),
                (''Executable'', entrypoint app_spec),
                (''uap10:RuntimeBehavior'', JStr ''packagedClassicApp''),
                (''uap10:TrustLevel'', JStr ''mediumIL'')]
               JNull
               [Element ''uap:VisualElements''
                  [(''DisplayName'', displayed_name app_spec),
                   (''Description'', description app_spec),
                   (''Square150x150Logo'', JStr (logo_sq_150x150 (logo app_spec))),
                   (''Square44x44Logo'', JStr (logo_sq_44x44 (logo app_spec))),
                   (''BackgroundColor'', bg_color (logo app_spec))]
                  JNull []]]]))"

section \<open>gen_appx_installer (lines 240 to 266)\<close>

definition gen_appx_installer :: "pylib \<Rightarrow> parsed_args \<Rightarrow> MsixApplication \<Rightarrow> MsixInstaller \<Rightarrow> xml" where
  "gen_appx_installer lib args app_spec installer_spec =
     Element ''AppInstaller''
       [(''xmlns'', JStr ''http://schemas.microsoft.com/appx/appinstaller/2018''),
        (''Version'', version installer_spec),
        (''Uri'', installer_uri installer_spec)]
       JNull
       [Element ''MainPackage''
          [(''Name'', name app_spec),
           (''Publisher'', JStr (publisher (cert app_spec))),
           (''Version'', JStr (app_version args)),
           (''Uri'', appx_uri installer_spec),
           (''ProcessorArchitecture'', arch app_spec)]
          JNull [],
        Element ''UpdateSettings'' [] JNull
          ([Element ''OnLaunch''
              [(''HoursBetweenUpdateChecks'',
                JStr (py_str lib (hours_between_update_checks installer_spec))),
               (''ShowPrompt'', JStr (str_lower lib (py_str lib (show_prompt installer_spec)))),
               (''UpdateBlocksActivation'',
                JStr (str_lower lib (py_str lib (update_blocks_activation installer_spec))))]
              JNull []]
           @ (if truthy (automatic_background_task installer_spec)
              then [Element ''AutomaticBackgroundTask'' [] JNull []] else [])
           @ (if truthy (force_update_from_any_version installer_spec)
              then [Element ''ForceUpdateFromAnyVersion'' [] (JStr ''true'') []] else []))]"

section \<open>The module body (lines 269 to 341)\<close>

text \<open>
  The keyword arguments of \<^verbatim>\<open>MsixApplication(...)\<close> are evaluated in the order written:
  seven look-ups, then \<^verbatim>\<open>get_cert_subject()\<close>, then the background colour and
  \<^verbatim>\<open>setup_app_logos\<close>, then two more look-ups.
\<close>

definition construct_app ::
  "pylib \<Rightarrow> parsed_args \<Rightarrow> (string \<Rightarrow> completed_process) \<Rightarrow> json \<Rightarrow> MsixApplication io" where
  "construct_app lib args powershell appx_manifest =
     bind_io (lift (subscript2 appx_manifest ''Identity'' ''Name'')) (\<lambda>v_name.
     bind_io (lift (subscript2 appx_manifest ''Identity'' ''Arch'')) (\<lambda>v_arch.
     bind_io (lift (subscript2 appx_manifest ''Properties'' ''DisplayName'')) (\<lambda>v_displayed_name.
     bind_io (lift (subscript2 appx_manifest ''Properties'' ''Description'')) (\<lambda>v_description.
     bind_io (lift (subscript2 appx_manifest ''Properties'' ''PublisherDisplayName'')) (\<lambda>v_displayed_publisher.
     bind_io (lift (subscript2 appx_manifest ''Application'' ''EntryPoint'')) (\<lambda>v_entrypoint.
     bind_io (lift (get_cert_subject args powershell)) (\<lambda>v_subject.
     bind_io (lift (subscript2 appx_manifest ''VisualElements'' ''BackgroundColor'')) (\<lambda>v_bg_color.
     bind_io (setup_app_logos lib args (logo_dir args) v_bg_color) (\<lambda>v_logo.
     bind_io (lift (subscript2 appx_manifest ''Dependencies'' ''MinVersion'')) (\<lambda>v_min.
     bind_io (lift (subscript2 appx_manifest ''Dependencies'' ''MaxVersionTested'')) (\<lambda>v_max.
     lift (Inr \<lparr>name = v_name,
                displayed_name = v_displayed_name,
                description = v_description,
                MsixApplication.version = app_version args,
                cert = \<lparr>publisher = v_subject\<rparr>,
                arch = v_arch,
                logo = v_logo,
                entrypoint = v_entrypoint,
                displayed_publisher = v_displayed_publisher,
                min_windows_version = v_min,
                max_windows_version_tested = v_max\<rparr>))))))))))))"

definition construct_installer :: "json \<Rightarrow> error + MsixInstaller" where
  "construct_installer installer_manifest =
     then_do (subscript installer_manifest ''Version'') (\<lambda>v_version.
     then_do (subscript installer_manifest ''Uri'') (\<lambda>v_uri.
     then_do (subscript2 installer_manifest ''MainPackage'' ''Uri'') (\<lambda>v_appx_uri.
     then_do (subscript3 installer_manifest ''UpdateSettings'' ''OnLaunch'' ''HoursBetweenUpdateChecks'') (\<lambda>v_hours.
     then_do (subscript3 installer_manifest ''UpdateSettings'' ''OnLaunch'' ''ShowPrompt'') (\<lambda>v_prompt.
     then_do (subscript3 installer_manifest ''UpdateSettings'' ''OnLaunch'' ''UpdateBlocksActivation'') (\<lambda>v_blocks.
     then_do (subscript2 installer_manifest ''UpdateSettings'' ''AutomaticBackgroundTask'') (\<lambda>v_task.
     then_do (subscript2 installer_manifest ''UpdateSettings'' ''ForceUpdateFromAnyVersion'') (\<lambda>v_force.
     Inr \<lparr>version = v_version,
          installer_uri = v_uri,
          appx_uri = v_appx_uri,
          hours_between_update_checks = v_hours,
          show_prompt = v_prompt,
          update_blocks_activation = v_blocks,
          automatic_background_task = v_task,
          force_update_from_any_version = v_force\<rparr>))))))))"

text \<open>
  \<^verbatim>\<open>tree.write(path, ...)\<close> opens the file for writing, which needs an existing directory and
  a path that is not a directory, and then serializes into it; what the serializer wrote
  before failing stays in the file.
\<close>

definition write_xml :: "pylib \<Rightarrow> path \<Rightarrow> xml \<Rightarrow> unit io" where
  "write_xml lib p tree fs =
     (if p = [] \<or> fs p = Some Dir \<or> fs (butlast p) \<noteq> Some Dir then (Inl OSError, fs)
      else (case snd (xml_write lib tree) of
              None \<Rightarrow> (Inr (), fs(p \<mapsto> File (fst (xml_write lib tree))))
            | Some e \<Rightarrow> (Inl e, fs(p \<mapsto> File (fst (xml_write lib tree))))))"

definition unlink_missing_ok :: "path \<Rightarrow> unit io" where
  "unlink_missing_ok p fs =
     (case fs p of
        None \<Rightarrow> (Inr (), fs)
      | Some (File c) \<Rightarrow> (Inr (), fs(p := None))
      | Some Dir \<Rightarrow> (Inl OSError, fs))"

definition manifest_path :: "parsed_args \<Rightarrow> path" where
  "manifest_path args = destination_dir args @ [''AppxManifest.xml'']"

definition emit_manifest :: "pylib \<Rightarrow> parsed_args \<Rightarrow> MsixApplication \<Rightarrow> unit io" where
  "emit_manifest lib args app =
     bind_io (lift (gen_appx_manifest app)) (\<lambda>tree. write_xml lib (manifest_path args) tree)"

subsection \<open>The padding block (lines 326 to 338)\<close>

text \<open>
  \<^verbatim>\<open>open(app_installer_path, "ba")\<close>: the bytes already in the file. Append mode creates a
  missing file when its directory exists, and cannot open a directory.
\<close>

definition open_append :: "path \<Rightarrow> filesystem \<Rightarrow> error + bytes" where
  "open_append p fs =
     (case fs p of
        Some (File c) \<Rightarrow> Inr c
      | Some Dir \<Rightarrow> Inl OSError
      | None \<Rightarrow> (if p \<noteq> [] \<and> fs (butlast p) = Some Dir then Inr [] else Inl OSError))"

definition file_pad_limit :: int where
  "file_pad_limit = 4096"

definition pad_app_installer :: "path \<Rightarrow> unit io" where
  "pad_app_installer app_installer_path fs =
     (case open_append app_installer_path fs of
        Inl e \<Rightarrow> (Inl e, fs)
      | Inr content \<Rightarrow>
          (let file_size = int (length content) in
           if file_size < file_pad_limit
           then (Inr (),
                 fs(app_installer_path \<mapsto>
                    File (content @ [LF] @ replicate (nat ((file_pad_limit - 1) - file_size)) SP)))
           else (Inl (AssertionError
                        [Lit ''AppInstaller file size is larger than the '',
                         FInt file_pad_limit, Lit ''B limit'']),
                 fs)))"


definition emit_installer :: "pylib \<Rightarrow> parsed_args \<Rightarrow> MsixApplication \<Rightarrow> MsixInstaller \<Rightarrow> unit io" where
  "emit_installer lib args app installer =
     bind_io (lift (url_path_name lib (installer_uri installer))) (\<lambda>file_name.
     bind_io (unlink_missing_ok (path_join lib (destination_dir args) file_name)) (\<lambda>_.
     bind_io (write_xml lib (path_join lib (destination_dir args) file_name)
                (gen_appx_installer lib args app installer)) (\<lambda>_.
     pad_app_installer (path_join lib (destination_dir args) file_name))))"

text \<open>Lines 269 to 298: both dataclass instances are built, whatever the flags say.\<close>

definition construct_specs ::
  "pylib \<Rightarrow> parsed_args \<Rightarrow> (string \<Rightarrow> completed_process) \<Rightarrow> json
     \<Rightarrow> (MsixApplication \<times> MsixInstaller) io" where
  "construct_specs lib args powershell manifest =
     bind_io (lift (subscript manifest ''AppManifest'')) (\<lambda>appx_manifest.
     bind_io (lift (subscript manifest ''AppInstaller'')) (\<lambda>installer_manifest.
     bind_io (construct_app lib args powershell appx_manifest) (\<lambda>app.
     bind_io (lift (construct_installer installer_manifest)) (\<lambda>installer.
     lift (Inr (app, installer))))))"

text \<open>Lines 300 to 339: the destination check and the two guarded blocks that write XML.\<close>

definition emit_documents :: "pylib \<Rightarrow> parsed_args \<Rightarrow> MsixApplication \<Rightarrow> MsixInstaller \<Rightarrow> unit io" where
  "emit_documents lib args app installer =
     bind_io (assert_is_dir (destination_dir args)
                [Lit ''Destination directory '', FPath (destination_dir args),
                 Lit '' does not exist'']) (\<lambda>_.
     bind_io (if \<not> no_manifest args then emit_manifest lib args app else lift (Inr ())) (\<lambda>_.
     if gen_installer args then emit_installer lib args app installer else lift (Inr ())))"

definition main ::
  "pylib \<Rightarrow> parsed_args \<Rightarrow> (string \<Rightarrow> completed_process) \<Rightarrow> json \<Rightarrow> unit io" where
  "main lib args powershell manifest =
     bind_io (construct_specs lib args powershell manifest) (\<lambda>specs.
     emit_documents lib args (fst specs) (snd specs))"

text \<open>The paths that \<^const>\<open>setup_app_logos\<close> may create or overwrite.\<close>

definition logo_targets :: "parsed_args \<Rightarrow> path set" where
  "logo_targets args =
     {destination_dir args @ [''msix_assets''],
      destination_dir args @ [''msix_assets'', ''logo_44x44.png''],
      destination_dir args @ [''msix_assets'', ''logo_150x150.png'']}"

section \<open>A sample run\<close>

text \<open>
  Inputs on which the model is run below. \<open>sample_lib\<close> stands in for the library: its
  serializer writes one empty element named after the root and never fails, its
  \<open>url_path_name\<close> takes what follows the last slash (which is what Python returns for the
  URIs used here), its \<open>path_join\<close> appends a name that is not empty as one component
  (which is the file Python reaches for the plain names used here), its \<open>path_str\<close> joins with a backslash, and its \<open>py_str\<close> renders
  strings, booleans, integers and \<^verbatim>\<open>None\<close>.
\<close>

fun join_with :: "string \<Rightarrow> string list \<Rightarrow> string" where
  "join_with sep [] = []"
| "join_with sep [x] = x"
| "join_with sep (x # y # ys) = x @ sep @ join_with sep (y # ys)"

fun digits :: "nat \<Rightarrow> nat \<Rightarrow> string" where
  "digits 0 n = []"
| "digits (Suc fuel) n =
     (if n < 10 then [char_of (48 + n)] else digits fuel (n div 10) @ [char_of (48 + n mod 10)])"

definition decimal :: "int \<Rightarrow> string" where
  "decimal i = (if i < 0 then ''-'' @ digits (Suc (nat (- i))) (nat (- i)) else digits (Suc (nat i)) (nat i))"

definition ascii_lower :: "string \<Rightarrow> string" where
  "ascii_lower s =
     map (\<lambda>c. if 65 \<le> (of_char c :: nat) \<and> (of_char c :: nat) \<le> 90
               then char_of ((of_char c :: nat) + 32) else c) s"

definition sample_lib :: pylib where
  "sample_lib =
     \<lparr>xml_write = (\<lambda>t. (''<'' @ tag t @ '' />'', None)),
      url_path_name = (\<lambda>v. case v of JStr s \<Rightarrow> Inr (last (split_on (CHR ''/'') s)) | _ \<Rightarrow> Inl TypeError),
      path_join = (\<lambda>d n. if n = [] then d else d @ [n]),
      path_str = join_with [CHR 0x5C],
      py_str = (\<lambda>v. case v of JStr s \<Rightarrow> s | JBool b \<Rightarrow> (if b then ''True'' else ''False'')
                            | JInt n \<Rightarrow> decimal n | _ \<Rightarrow> ''None''),
      str_lower = ascii_lower\<rparr>"

definition sample_args :: parsed_args where
  "sample_args =
     \<lparr>destination_dir = [''dist''],
      app_version = ''1.2.3.0'',
      logo_dir = [''logos''],
      cert_subject = Some ''CN=Contoso'',
      cert_path = None,
      no_manifest = False,
      gen_installer = True\<rparr>"

definition sample_app_manifest :: json where
  "sample_app_manifest =
     JObj [(''Identity'', JObj [(''Name'', JStr ''Contoso.App.Tool''), (''Arch'', JStr ''x64'')]),
           (''Properties'', JObj [(''DisplayName'', JStr ''Tool''), (''Description'', JStr ''A tool''),
                                 (''PublisherDisplayName'', JStr ''Contoso'')]),
           (''Application'', JObj [(''EntryPoint'', JStr ''tool.exe'')]),
           (''VisualElements'', JObj [(''BackgroundColor'', JStr ''transparent'')]),
           (''Dependencies'', JObj [(''MinVersion'', JStr ''10.0.17763.0''),
                                   (''MaxVersionTested'', JStr ''10.0.19045.0'')])]"

definition sample_installer_manifest :: "string \<Rightarrow> json" where
  "sample_installer_manifest uri =
     JObj [(''Version'', JStr ''1.0.0.0''),
           (''Uri'', JStr uri),
           (''MainPackage'', JObj [(''Uri'', JStr ''https://example.com/tool.msix'')]),
           (''UpdateSettings'',
            JObj [(''OnLaunch'', JObj [(''HoursBetweenUpdateChecks'', JInt 12),
                                      (''ShowPrompt'', JBool True),
                                      (''UpdateBlocksActivation'', JBool False)]),
                  (''AutomaticBackgroundTask'', JBool True),
                  (''ForceUpdateFromAnyVersion'', JBool False)])]"

definition sample_manifest :: "string \<Rightarrow> json" where
  "sample_manifest uri =
     JObj [(''AppManifest'', sample_app_manifest), (''AppInstaller'', sample_installer_manifest uri)]"

definition sample_fs :: filesystem where
  "sample_fs =
     [[] \<mapsto> Dir,
      [''dist''] \<mapsto> Dir,
      [''dist'', ''AppxManifest.xml''] \<mapsto> File ''earlier manifest'',
      [''logos''] \<mapsto> Dir,
      [''logos'', ''logo_44x44.png''] \<mapsto> File ''small'',
      [''logos'', ''logo_150x150.png''] \<mapsto> File ''large'']"

definition fs_without_large_logo :: filesystem where
  "fs_without_large_logo = sample_fs([''logos'', ''logo_150x150.png''] := None)"

definition fs_without_manifest :: filesystem where
  "fs_without_manifest = sample_fs([''dist'', ''AppxManifest.xml''] := None)"

definition sample_fs_staged :: filesystem where
  "sample_fs_staged =
     sample_fs([''dist'', ''msix_assets''] \<mapsto> Dir,
               [''dist'', ''msix_assets'', ''logo_44x44.png''] \<mapsto> File ''small'',
               [''dist'', ''msix_assets'', ''logo_150x150.png''] \<mapsto> File ''large'')"

definition no_powershell :: "string \<Rightarrow> completed_process" where
  "no_powershell searched_path = \<lparr>returncode = 1, stdout_decoded = Some []\<rparr>"

definition three_line_output :: string where
  "three_line_output = ''Contoso signing'' @ [CR, LF] @ ''0B'' @ [CR, LF] @ ''CN=Contoso'' @ [CR, LF]"

definition powershell_exit :: "int \<Rightarrow> string \<Rightarrow> completed_process" where
  "powershell_exit status searched_path = \<lparr>returncode = status, stdout_decoded = Some three_line_output\<rparr>"

definition sample_certs :: "certificate list" where
  "sample_certs =
     [\<lparr>FriendlyName = ''old'', Thumbprint = ''0A'', Subject = ''CN=Old'', NotBefore = 0, NotAfter = 50\<rparr>,
      \<lparr>FriendlyName = ''late'', Thumbprint = ''0B'', Subject = ''CN=Late'', NotBefore = 10, NotAfter = 300\<rparr>,
      \<lparr>FriendlyName = ''early'', Thumbprint = ''0C'', Subject = ''CN=Early'', NotBefore = 10, NotAfter = 200\<rparr>,
      \<lparr>FriendlyName = ''future'', Thumbprint = ''0D'', Subject = ''CN=Future'', NotBefore = 150, NotAfter = 900\<rparr>]"


definition sample_app :: MsixApplication where
  "sample_app =
     \<lparr>name = JStr ''Contoso.App.Tool'',
      displayed_name = JStr ''Tool'',
      description = JStr ''A tool'',
      MsixApplication.version = ''1.2.3.0'',
      cert = \<lparr>publisher = ''CN=Contoso''\<rparr>,
      arch = JStr ''x64'',
      logo = \<lparr>logo_sq_44x44 = ''msix_assets'' @ [CHR 0x5C] @ ''logo_44x44.png'',
              logo_sq_150x150 = ''msix_assets'' @ [CHR 0x5C] @ ''logo_150x150.png'',
              bg_color = JStr ''transparent''\<rparr>,
      entrypoint = JStr ''tool.exe'',
      displayed_publisher = JStr ''Contoso'',
      min_windows_version = JStr ''10.0.17763.0'',
      max_windows_version_tested = JStr ''10.0.19045.0''\<rparr>"

definition sample_installer :: MsixInstaller where
  "sample_installer =
     \<lparr>version = JStr ''1.0.0.0'',
      installer_uri = JStr ''https://example.com/tool.appinstaller'',
      appx_uri = JStr ''https://example.com/tool.msix'',
      hours_between_update_checks = JInt 12,
      show_prompt = JBool True,
      update_blocks_activation = JBool False,
      automatic_background_task = JBool True,
      force_update_from_any_version = JBool False\<rparr>"

definition sample_store :: "string \<Rightarrow> certificate list" where
  "sample_store searched_path = sample_certs"

section \<open>Notions used to state the properties\<close>

text \<open>A step changes the file system at most at the paths in \<open>S\<close>, whether it raises or not.\<close>

definition touches_only :: "path set \<Rightarrow> 'a io \<Rightarrow> bool" where
  "touches_only S m \<longleftrightarrow> (\<forall>fs. {p. snd (m fs) p \<noteq> fs p} \<subseteq> S)"

text \<open>The two logo copies.\<close>

definition logo_copies :: "parsed_args \<Rightarrow> path set" where
  "logo_copies args =
     {destination_dir args @ [''msix_assets'', ''logo_44x44.png''],
      destination_dir args @ [''msix_assets'', ''logo_150x150.png'']}"

text \<open>
  A step leaves a file with new content at most at the paths in \<open>S\<close>: wherever else a file
  is found afterwards, the same file was there before.
\<close>

definition writes_files_only :: "path set \<Rightarrow> 'a io \<Rightarrow> bool" where
  "writes_files_only S m \<longleftrightarrow>
     (\<forall>fs. {p. \<exists>c. snd (m fs) p = Some (File c) \<and> fs p \<noteq> Some (File c)} \<subseteq> S)"

text \<open>
  The document has no value at a key path: on the way down a key is missing (or what is
  found there is not an object), so that the chain of subscripts raises.
\<close>

fun lacks :: "json \<Rightarrow> string list \<Rightarrow> bool" where
  "lacks d [] = False"
| "lacks d (k # ks) = (case subscript d k of Inl e \<Rightarrow> True | Inr v \<Rightarrow> lacks v ks)"


section \<open>Properties of the padding block\<close>

text \<open>
  C1. When the installer descriptor holds fewer than 4096 bytes before the padding step,
  the step succeeds and leaves a file of exactly 4096 bytes: the bytes that were there,
  then one newline byte, then spaces up to the end. No other path changes.
\<close>

theorem pad_app_installer_exact:
  assumes "fs p = Some (File content)" and "length content < 4096"
  shows "pad_app_installer p fs =
           (Inr (), fs(p \<mapsto> File (content @ [LF] @ replicate (4095 - length content) SP)))
         \<and> length (content @ [LF] @ replicate (4095 - length content) SP) = 4096
         \<and> take (length content) (content @ [LF] @ replicate (4095 - length content) SP) = content"
proof -
  have n: "nat (4095 - int (length content)) = 4095 - length content"
    using assms(2) by linarith
  have "pad_app_installer p fs =
          (Inr (), fs(p \<mapsto> File (content @ [LF] @ replicate (4095 - length content) SP)))"
    using assms n by (simp add: pad_app_installer_def open_append_def file_pad_limit_def)
  moreover have "length (content @ [LF] @ replicate (4095 - length content) SP) = 4096"
    using assms(2) by simp
  ultimately show ?thesis by simp
qed

theorem pad_app_installer_exact_witness:
  "pad_app_installer [''dist'', ''app.appinstaller'']
     ((\<lambda>_. None)([''dist'', ''app.appinstaller''] \<mapsto> File ''<AppInstaller />''))
   = (Inr (), ((\<lambda>_. None)([''dist'', ''app.appinstaller''] \<mapsto> File ''<AppInstaller />''))
                ([''dist'', ''app.appinstaller''] \<mapsto>
                   File (''<AppInstaller />'' @ [LF] @ replicate (4095 - length ''<AppInstaller />'') SP)))
   \<and> length (''<AppInstaller />'' @ [LF] @ replicate (4095 - length ''<AppInstaller />'') SP) = 4096"
  using pad_app_installer_exact
          [of "(\<lambda>_. None)([''dist'', ''app.appinstaller''] \<mapsto> File ''<AppInstaller />'')"
              "[''dist'', ''app.appinstaller'']" "''<AppInstaller />''"]
  by simp

text \<open>
  C2, as the code has it. When the descriptor holds 4096 bytes or more before the padding
  step, the step raises the assertion error and leaves the file system as it was: the
  descriptor keeps its complete, unpadded content. The message names the limit only.
\<close>

theorem pad_app_installer_too_large:
  assumes "fs p = Some (File content)" and "4096 \<le> length content"
  shows "pad_app_installer p fs =
           (Inl (AssertionError [Lit ''AppInstaller file size is larger than the '', FInt 4096,
                                 Lit ''B limit'']), fs)"
  using assms by (simp add: pad_app_installer_def open_append_def file_pad_limit_def)

theorem pad_app_installer_too_large_witness:
  "pad_app_installer [''dist'', ''app.appinstaller'']
     (Map.empty([''dist'', ''app.appinstaller''] \<mapsto> File (replicate 4096 SP)))
   = (Inl (AssertionError [Lit ''AppInstaller file size is larger than the '', FInt 4096,
                           Lit ''B limit'']),
      Map.empty([''dist'', ''app.appinstaller''] \<mapsto> File (replicate 4096 SP)))"
  using pad_app_installer_too_large
          [of "Map.empty([''dist'', ''app.appinstaller''] \<mapsto> File (replicate 4096 SP))"
              "[''dist'', ''app.appinstaller'']" "replicate 4096 SP"]
  by simp

text \<open>
  C2, as stated, asks for the measured size in the report. On a descriptor of 5000 bytes the
  message interpolates 4096 and nothing else: the size 5000 is not in it.
\<close>

theorem pad_app_installer_size_counterexample:
  "fst (pad_app_installer [''dist'', ''app.appinstaller'']
          (Map.empty([''dist'', ''app.appinstaller''] \<mapsto> File (replicate 5000 SP))))
     = Inl (AssertionError [Lit ''AppInstaller file size is larger than the '', FInt 4096,
                            Lit ''B limit''])
   \<and> FInt (int (length (replicate 5000 SP)))
       \<notin> set [Lit ''AppInstaller file size is larger than the '', FInt 4096, Lit ''B limit'']"
  by (simp add: pad_app_installer_def open_append_def file_pad_limit_def)

section \<open>Properties of the generated trees\<close>

lemma split_on_nonempty: "split_on c s \<noteq> []"
  by (induction s) auto

lemma last_split_on_no_sep: "c \<notin> set (last (split_on c s))"
proof (induction s)
  case Nil
  then show ?case by simp
next
  case (Cons x xs)
  have ne: "split_on c xs \<noteq> []" by (rule split_on_nonempty)
  show ?case
  proof (cases "x = c")
    case True
    then show ?thesis using Cons ne by simp
  next
    case False
    show ?thesis
    proof (cases "tl (split_on c xs) = []")
      case True
      then have "last (split_on c xs) = hd (split_on c xs)"
        using ne by (cases "split_on c xs") auto
      then show ?thesis using Cons False True by simp
    next
      case F2: False
      then have "last (split_on c xs) = last (tl (split_on c xs))"
        using ne by (cases "split_on c xs") auto
      then show ?thesis using Cons False F2 by simp
    qed
  qed
qed

lemma last_nonempty_tl: "r \<noteq> [] \<Longrightarrow> tl r \<noteq> [] \<Longrightarrow> last (tl r) = last r"
  by (cases r) auto

lemma last_singleton_hd: "r \<noteq> [] \<Longrightarrow> tl r = [] \<Longrightarrow> last r = hd r"
  by (cases r) auto

lemma split_on_pieces:
  "(tl (split_on c s) = [] \<longrightarrow> s = hd (split_on c s))
   \<and> (tl (split_on c s) \<noteq> [] \<longrightarrow> (\<exists>pre. s = pre @ c # last (split_on c s)))"
proof (induction s)
  case Nil
  then show ?case by simp
next
  case (Cons x xs)
  have ne: "split_on c xs \<noteq> []" by (rule split_on_nonempty)
  show ?case
  proof (cases "x = c")
    case True
    show ?thesis
    proof (cases "tl (split_on c xs) = []")
      case T2: True
      then have "xs = last (split_on c xs)"
        using Cons ne by (simp add: last_singleton_hd)
      then have "x # xs = [] @ c # last (split_on c (x # xs))"
        using True ne by simp
      then have "\<exists>pre. x # xs = pre @ c # last (split_on c (x # xs))" ..
      moreover have "tl (split_on c (x # xs)) \<noteq> []" using True ne by simp
      ultimately show ?thesis by simp
    next
      case False
      then obtain pre where "xs = pre @ c # last (split_on c xs)"
        using Cons by blast
      then have "x # xs = (x # pre) @ c # last (split_on c (x # xs))"
        using True ne by simp
      then have "\<exists>pre. x # xs = pre @ c # last (split_on c (x # xs))" ..
      moreover have "tl (split_on c (x # xs)) \<noteq> []" using True ne by simp
      ultimately show ?thesis by simp
    qed
  next
    case False
    show ?thesis
    proof (cases "tl (split_on c xs) = []")
      case True
      then show ?thesis using Cons False by simp
    next
      case F2: False
      then obtain pre where "xs = pre @ c # last (split_on c xs)"
        using Cons by blast
      then have "x # xs = (x # pre) @ c # last (split_on c (x # xs))"
        using False F2 ne by (simp add: last_nonempty_tl)
      then have "\<exists>pre. x # xs = pre @ c # last (split_on c (x # xs))" ..
      moreover have "tl (split_on c (x # xs)) \<noteq> []" using False F2 by simp
      ultimately show ?thesis by simp
    qed
  qed
qed

lemma last_split_on_suffix:
  "s = last (split_on c s) \<or> (\<exists>pre. s = pre @ c # last (split_on c s))"
  using split_on_pieces [of c s] split_on_nonempty [of c s]
  by (cases "tl (split_on c s) = []") (simp_all add: last_singleton_hd)


lemma split_on_no_sep: "c \<notin> set s \<Longrightarrow> split_on c s = [s]"
  by (induction s) auto

lemma split_on_sep_pieces: "c \<in> set s \<Longrightarrow> tl (split_on c s) \<noteq> []"
  by (induction s) (auto simp: split_on_nonempty)

lemma last_split_on_Cons:
  "last (split_on c (x # xs)) =
     (if c \<in> set xs then last (split_on c xs) else if x = c then xs else x # xs)"
proof (cases "c \<in> set xs")
  case True
  then show ?thesis
    using split_on_sep_pieces [of c xs] split_on_nonempty [of c xs]
    by (simp add: last_nonempty_tl)
next
  case False
  then show ?thesis by (simp add: split_on_no_sep)
qed

text \<open>
  C5. Whatever string the app name is, the manifest is built, and the \<open>Id\<close> attribute of its
  \<open>Application\<close> element is the last piece of the name split at dots: it has no dot, and the
  name is either that piece alone or ends with a dot followed by it.
\<close>

theorem application_id_is_last_segment:
  "\<exists>pkg appl seg.
      gen_appx_manifest (app_spec\<lparr>name := JStr s\<rparr>) = Inr pkg
    \<and> descend [''Applications'', ''Application''] pkg = Some appl
    \<and> get_attr ''Id'' appl = Some (JStr seg)
    \<and> seg = last (split_on (CHR ''.'') s)
    \<and> CHR ''.'' \<notin> set seg
    \<and> (s = seg \<or> (\<exists>pre. s = pre @ ''.'' @ seg))"
  using last_split_on_no_sep [of "CHR ''.''" s] last_split_on_suffix [of s "CHR ''.''"]
  by (simp add: gen_appx_manifest_def split_dot_def then_do_def find_child_def get_attr_def)

theorem application_id_is_last_segment_witness:
  "\<exists>pkg appl.
      gen_appx_manifest (sample_app\<lparr>name := JStr ''Contoso.App.Tool''\<rparr>) = Inr pkg
    \<and> descend [''Applications'', ''Application''] pkg = Some appl
    \<and> get_attr ''Id'' appl = Some (JStr ''Tool'')"
  using application_id_is_last_segment [where s = "''Contoso.App.Tool''" and app_spec = sample_app]
  by (simp add: last_split_on_Cons del: split_on.simps)

section \<open>Raising and framing in the module body\<close>

lemma bind_io_lift: "bind_io (lift r) f fs = (case r of Inl e \<Rightarrow> (Inl e, fs) | Inr x \<Rightarrow> f x fs)"
  by (simp add: bind_io_def lift_def split: sum.splits)

lemma isl_bind_io:
  assumes "\<And>x fs'. m fs = (Inr x, fs') \<Longrightarrow> isl (fst (f x fs'))"
  shows "isl (fst (bind_io m f fs))"
proof (cases "m fs")
  case (Pair r fs')
  then show ?thesis using assms by (cases r) (simp_all add: bind_io_def)
qed

lemma isl_bind_io_first: "isl (fst (m fs)) \<Longrightarrow> isl (fst (bind_io m f fs))"
  by (rule isl_bind_io) simp

lemma bind_io_raises: "isl (fst (m fs)) \<Longrightarrow> bind_io m f fs = (Inl (projl (fst (m fs))), snd (m fs))"
  by (cases "m fs"; cases "fst (m fs)") (auto simp: bind_io_def)

lemma touches_only_lift: "touches_only S (lift r)"
  by (simp add: touches_only_def lift_def)

lemma touches_only_bind:
  assumes "touches_only S m" and "\<And>x. touches_only S (f x)"
  shows "touches_only S (bind_io m f)"
  unfolding touches_only_def
proof (intro allI subsetI)
  fix fs p
  assume p: "p \<in> {p. snd (bind_io m f fs) p \<noteq> fs p}"
  obtain r fs1 where m: "m fs = (r, fs1)" by (cases "m fs")
  have a: "fs1 q \<noteq> fs q \<Longrightarrow> q \<in> S" for q
    using assms(1) m unfolding touches_only_def by (metis (mono_tags, lifting) mem_Collect_eq snd_conv subsetD)
  show "p \<in> S"
  proof (cases r)
    case (Inl e)
    then show ?thesis using p m a by (simp add: bind_io_def)
  next
    case (Inr x)
    have b: "snd (f x fs1) q \<noteq> fs1 q \<Longrightarrow> q \<in> S" for q
      using assms(2) [of x] unfolding touches_only_def by blast
    have "snd (f x fs1) p \<noteq> fs p" using p m Inr by (simp add: bind_io_def)
    then show ?thesis using a [of p] b [of p] by (cases "fs1 p = fs p") auto
  qed
qed

lemma touches_only_bind_lift:
  assumes "\<And>x. r = Inr x \<Longrightarrow> touches_only S (f x)"
  shows "touches_only S (bind_io (lift r) f)"
  using assms unfolding touches_only_def by (cases r) (auto simp: bind_io_lift)

lemma touches_only_mono: "touches_only S m \<Longrightarrow> S \<subseteq> T \<Longrightarrow> touches_only T m"
  unfolding touches_only_def by blast

lemma touches_only_mkdir: "touches_only {p} (mkdir_exist_ok p)"
  by (auto simp: touches_only_def mkdir_exist_ok_def split: option.splits node.splits if_splits)

lemma touches_only_assert: "touches_only S (assert_is_dir p msg)"
  by (auto simp: touches_only_def assert_is_dir_def)

lemma touches_only_copy: "touches_only {d @ [last lp]} (check_and_copy_logo lib d lp)"
  by (auto simp: touches_only_def check_and_copy_logo_def Let_def split: option.splits node.splits if_splits)

lemma touches_only_setup: "touches_only (logo_targets args) (setup_app_logos lib args logos bg)"
  unfolding setup_app_logos_def Let_def
  by (intro touches_only_bind touches_only_lift touches_only_assert
            touches_only_mono [OF touches_only_mkdir] touches_only_mono [OF touches_only_copy])
     (simp_all add: logo_targets_def)

lemma touches_only_construct_app:
  "touches_only (logo_targets args) (construct_app lib args powershell appx_manifest)"
  unfolding construct_app_def
  by (intro touches_only_bind touches_only_lift touches_only_setup)

lemma touches_only_construct_specs:
  "touches_only (logo_targets args) (construct_specs lib args powershell manifest)"
  unfolding construct_specs_def
  by (intro touches_only_bind touches_only_lift touches_only_construct_app)

lemma main_raises_early:
  assumes "isl (fst (construct_specs lib args powershell manifest fs))"
  shows "isl (fst (main lib args powershell manifest fs))"
    and "{p. snd (main lib args powershell manifest fs) p \<noteq> fs p} \<subseteq> logo_targets args"
proof -
  have m: "main lib args powershell manifest fs =
             (Inl (projl (fst (construct_specs lib args powershell manifest fs))),
              snd (construct_specs lib args powershell manifest fs))"
    unfolding main_def using assms by (rule bind_io_raises)
  show "isl (fst (main lib args powershell manifest fs))" by (simp add: m)
  show "{p. snd (main lib args powershell manifest fs) p \<noteq> fs p} \<subseteq> logo_targets args"
    using touches_only_construct_specs [of args lib powershell manifest]
    by (simp add: m touches_only_def)
qed

lemma manifest_path_not_logo_target: "manifest_path args \<notin> logo_targets args"
  by (simp add: manifest_path_def logo_targets_def)

lemma setup_app_logos_raises:
  assumes "fs logos \<noteq> Some Dir \<or> fs (logos @ [''logo_44x44.png'']) = None
           \<or> fs (logos @ [''logo_150x150.png'']) = None"
  shows "isl (fst (setup_app_logos lib args logos bg fs))"
  using assms
  by (auto simp: setup_app_logos_def Let_def bind_io_def lift_def mkdir_exist_ok_def
                 assert_is_dir_def check_and_copy_logo_def
           split: option.splits node.splits if_splits sum.splits prod.splits)

lemma construct_app_raises_logos:
  assumes "fs (logo_dir args) \<noteq> Some Dir \<or> fs (logo_dir args @ [''logo_44x44.png'']) = None
           \<or> fs (logo_dir args @ [''logo_150x150.png'']) = None"
  shows "isl (fst (construct_app lib args powershell appx_manifest fs))"
proof -
  have r: "setup_app_logos lib args (logo_dir args) bg fs \<noteq> (Inr x, fs')" for bg x fs'
    using setup_app_logos_raises [OF assms, of lib args bg] by auto
  show ?thesis
    unfolding construct_app_def
    by (intro isl_bind_io) (auto simp: lift_def r)
qed

lemma construct_app_raises_cert:
  assumes "isl (get_cert_subject args powershell)"
  shows "isl (fst (construct_app lib args powershell appx_manifest fs))"
  unfolding construct_app_def
  using assms by (intro isl_bind_io) (auto simp: lift_def)

lemma construct_specs_raises_app:
  assumes "\<And>am. isl (fst (construct_app lib args powershell am fs))"
  shows "isl (fst (construct_specs lib args powershell manifest fs))"
  unfolding construct_specs_def
  using assms by (auto simp: bind_io_lift intro!: isl_bind_io_first split: sum.splits)

lemma lacks_construct_installer:
  assumes "lacks im [''Version''] \<or> lacks im [''Uri''] \<or> lacks im [''MainPackage'', ''Uri'']
           \<or> lacks im [''UpdateSettings'']"
  shows "isl (construct_installer im)"
  using assms
  by (auto simp: construct_installer_def then_do_def subscript2_def subscript3_def split: sum.splits)

lemma construct_specs_raises_installer:
  assumes "lacks manifest [''AppInstaller''] \<or> lacks manifest [''AppInstaller'', ''Version'']
           \<or> lacks manifest [''AppInstaller'', ''Uri'']
           \<or> lacks manifest [''AppInstaller'', ''MainPackage'', ''Uri'']
           \<or> lacks manifest [''AppInstaller'', ''UpdateSettings'']"
  shows "isl (fst (construct_specs lib args powershell manifest fs))"
proof (cases "subscript manifest ''AppInstaller''")
  case (Inl e)
  then show ?thesis
    by (auto simp: construct_specs_def bind_io_lift split: sum.splits)
next
  case (Inr im)
  then have "isl (construct_installer im)"
    using assms by (intro lacks_construct_installer) auto
  then show ?thesis
    unfolding construct_specs_def
    using Inr by (intro isl_bind_io) (auto simp: lift_def)
qed

lemma writes_files_only_lift: "writes_files_only S (lift r)"
  by (simp add: writes_files_only_def lift_def)

lemma writes_files_onlyD:
  "writes_files_only S m \<Longrightarrow> snd (m fs) p = Some (File c) \<Longrightarrow> fs p \<noteq> Some (File c) \<Longrightarrow> p \<in> S"
  by (auto simp: writes_files_only_def)

lemma writes_files_only_bind:
  assumes "writes_files_only S m" and "\<And>x. writes_files_only S (f x)"
  shows "writes_files_only S (bind_io m f)"
  unfolding writes_files_only_def
proof (intro allI subsetI)
  fix fs p
  assume "p \<in> {p. \<exists>c. snd (bind_io m f fs) p = Some (File c) \<and> fs p \<noteq> Some (File c)}"
  then obtain c where c: "snd (bind_io m f fs) p = Some (File c)" "fs p \<noteq> Some (File c)"
    by blast
  obtain r fs1 where m: "m fs = (r, fs1)" by (cases "m fs")
  have a: "fs1 p = Some (File c) \<Longrightarrow> p \<in> S"
    using writes_files_onlyD [OF assms(1), of fs p c] m c(2) by simp
  show "p \<in> S"
  proof (cases r)
    case (Inl e)
    then show ?thesis using c m a by (simp add: bind_io_def)
  next
    case (Inr x)
    have b: "snd (f x fs1) p = Some (File c)" using c(1) m Inr by (simp add: bind_io_def)
    show ?thesis
    proof (cases "fs1 p = Some (File c)")
      case True
      then show ?thesis by (rule a)
    next
      case False
      then show ?thesis
        using writes_files_onlyD [OF assms(2), of x fs1 p c] b by simp
    qed
  qed
qed

lemma writes_files_only_mono: "writes_files_only S m \<Longrightarrow> S \<subseteq> T \<Longrightarrow> writes_files_only T m"
  unfolding writes_files_only_def by blast

lemma writes_files_only_mkdir: "writes_files_only {} (mkdir_exist_ok p)"
  by (auto simp: writes_files_only_def mkdir_exist_ok_def split: option.splits node.splits if_splits)

lemma writes_files_only_assert: "writes_files_only S (assert_is_dir p msg)"
  by (auto simp: writes_files_only_def assert_is_dir_def)

lemma writes_files_only_copy: "writes_files_only {d @ [last lp]} (check_and_copy_logo lib d lp)"
  by (auto simp: writes_files_only_def check_and_copy_logo_def Let_def
           split: option.splits node.splits if_splits)

lemma writes_files_only_setup: "writes_files_only (logo_copies args) (setup_app_logos lib args logos bg)"
  unfolding setup_app_logos_def Let_def
  by (intro writes_files_only_bind writes_files_only_lift writes_files_only_assert
            writes_files_only_mono [OF writes_files_only_mkdir]
            writes_files_only_mono [OF writes_files_only_copy])
     (simp_all add: logo_copies_def)

lemma writes_files_only_construct_app:
  "writes_files_only (logo_copies args) (construct_app lib args powershell appx_manifest)"
  unfolding construct_app_def
  by (intro writes_files_only_bind writes_files_only_lift writes_files_only_setup)

lemma writes_files_only_construct_specs:
  "writes_files_only (logo_copies args) (construct_specs lib args powershell manifest)"
  unfolding construct_specs_def
  by (intro writes_files_only_bind writes_files_only_lift writes_files_only_construct_app)

lemma main_raises_early_files:
  assumes "isl (fst (construct_specs lib args powershell manifest fs))"
  shows "{p. \<exists>c. snd (main lib args powershell manifest fs) p = Some (File c) \<and> fs p \<noteq> Some (File c)}
         \<subseteq> logo_copies args"
proof -
  have m: "main lib args powershell manifest fs =
             (Inl (projl (fst (construct_specs lib args powershell manifest fs))),
              snd (construct_specs lib args powershell manifest fs))"
    unfolding main_def using assms by (rule bind_io_raises)
  show ?thesis
    using writes_files_only_construct_specs [of args lib powershell manifest]
    by (simp add: m writes_files_only_def)
qed

text \<open>
  C6. When the logo directory is missing (or is not a directory), or one of the two logo
  files is missing from it, the run raises. The only paths it may have changed are the
  asset directory and the two logo copies in it, and the only files it may have written are
  the two logo copies: no XML file is created or changed, and \<open>AppxManifest.xml\<close> is as it
  was.
\<close>

theorem missing_logos_abort_before_xml:
  assumes "fs (logo_dir args) \<noteq> Some Dir \<or> fs (logo_dir args @ [''logo_44x44.png'']) = None
           \<or> fs (logo_dir args @ [''logo_150x150.png'']) = None"
  shows "isl (fst (main lib args powershell manifest fs))
         \<and> {p. snd (main lib args powershell manifest fs) p \<noteq> fs p} \<subseteq> logo_targets args
         \<and> {p. \<exists>c. snd (main lib args powershell manifest fs) p = Some (File c)
                    \<and> fs p \<noteq> Some (File c)} \<subseteq> logo_copies args
         \<and> snd (main lib args powershell manifest fs) (manifest_path args) = fs (manifest_path args)"
proof -
  have r: "isl (fst (construct_specs lib args powershell manifest fs))"
    by (rule construct_specs_raises_app) (rule construct_app_raises_logos [OF assms])
  have f: "{p. snd (main lib args powershell manifest fs) p \<noteq> fs p} \<subseteq> logo_targets args"
    by (rule main_raises_early(2) [OF r])
  have "snd (main lib args powershell manifest fs) (manifest_path args) = fs (manifest_path args)"
    using f manifest_path_not_logo_target [of args] by blast
  then show ?thesis
    using main_raises_early(1) [OF r] f main_raises_early_files [OF r] by (intro conjI)
qed

theorem missing_logos_abort_before_xml_witness:
  "fs_without_large_logo (logo_dir sample_args @ [''logo_150x150.png'']) = None
   \<and> isl (fst (main sample_lib sample_args no_powershell (sample_manifest ''https://example.com/tool.appinstaller'')
                 fs_without_large_logo))
   \<and> snd (main sample_lib sample_args no_powershell (sample_manifest ''https://example.com/tool.appinstaller'')
            fs_without_large_logo) [''dist'', ''AppxManifest.xml'']
     = Some (File ''earlier manifest'')
   \<and> snd (main sample_lib sample_args no_powershell (sample_manifest ''https://example.com/tool.appinstaller'')
            fs_without_large_logo) [''dist'', ''tool.appinstaller'']
     = None"
proof -
  let ?fs = "fs_without_large_logo"
  let ?run = "main sample_lib sample_args no_powershell
                (sample_manifest ''https://example.com/tool.appinstaller'') ?fs"
  have h: "?fs (logo_dir sample_args @ [''logo_150x150.png'']) = None"
    by (simp add: sample_args_def fs_without_large_logo_def)
  then have "?fs (logo_dir sample_args) \<noteq> Some Dir
             \<or> ?fs (logo_dir sample_args @ [''logo_44x44.png'']) = None
             \<or> ?fs (logo_dir sample_args @ [''logo_150x150.png'']) = None"
    by blast
  note t = missing_logos_abort_before_xml [OF this, of sample_lib no_powershell
             "sample_manifest ''https://example.com/tool.appinstaller''"]
  have m: "manifest_path sample_args = [''dist'', ''AppxManifest.xml'']"
    by (simp add: manifest_path_def sample_args_def)
  note t1 = t [THEN conjunct1]
  note t2 = t [THEN conjunct2, THEN conjunct1]
  note t4 = t [THEN conjunct2, THEN conjunct2, THEN conjunct2, unfolded m]
  have a: "?fs [''dist'', ''AppxManifest.xml''] = Some (File ''earlier manifest'')"
    by (simp add: sample_fs_def fs_without_large_logo_def)
  have b: "?fs [''dist'', ''tool.appinstaller''] = None"
    by (simp add: sample_fs_def fs_without_large_logo_def)
  have "[''dist'', ''tool.appinstaller''] \<notin> logo_targets sample_args"
    by (simp add: logo_targets_def sample_args_def)
  then have "snd ?run [''dist'', ''tool.appinstaller''] = ?fs [''dist'', ''tool.appinstaller'']"
    using t2 by blast
  then show ?thesis
    using h t1 t4 [unfolded a] by (simp only: b simp_thms)
qed

text \<open>
  C10. Whatever the flags, a document without the \<open>AppInstaller\<close> key, or without its
  \<open>Version\<close>, \<open>Uri\<close>, \<open>MainPackage.Uri\<close> or \<open>UpdateSettings\<close>, makes the run raise while
  the two dataclass instances are built. The only files it may have written are the two
  logo copies: no XML file is created or changed, and \<open>AppxManifest.xml\<close> is as it was.
\<close>

theorem missing_installer_keys_abort:
  assumes "lacks manifest [''AppInstaller''] \<or> lacks manifest [''AppInstaller'', ''Version'']
           \<or> lacks manifest [''AppInstaller'', ''Uri'']
           \<or> lacks manifest [''AppInstaller'', ''MainPackage'', ''Uri'']
           \<or> lacks manifest [''AppInstaller'', ''UpdateSettings'']"
  shows "isl (fst (main lib args powershell manifest fs))
         \<and> {p. snd (main lib args powershell manifest fs) p \<noteq> fs p} \<subseteq> logo_targets args
         \<and> {p. \<exists>c. snd (main lib args powershell manifest fs) p = Some (File c)
                    \<and> fs p \<noteq> Some (File c)} \<subseteq> logo_copies args
         \<and> snd (main lib args powershell manifest fs) (manifest_path args) = fs (manifest_path args)"
proof -
  have r: "isl (fst (construct_specs lib args powershell manifest fs))"
    by (rule construct_specs_raises_installer [OF assms])
  have f: "{p. snd (main lib args powershell manifest fs) p \<noteq> fs p} \<subseteq> logo_targets args"
    by (rule main_raises_early(2) [OF r])
  have "snd (main lib args powershell manifest fs) (manifest_path args) = fs (manifest_path args)"
    using f manifest_path_not_logo_target [of args] by blast
  then show ?thesis
    using main_raises_early(1) [OF r] f main_raises_early_files [OF r] by (intro conjI)
qed

theorem missing_installer_keys_abort_witness:
  "lacks (JObj [(''AppManifest'', sample_app_manifest)]) [''AppInstaller'']
   \<and> \<not> gen_installer (sample_args\<lparr>gen_installer := False\<rparr>)
   \<and> isl (fst (main sample_lib (sample_args\<lparr>gen_installer := False\<rparr>) no_powershell
                 (JObj [(''AppManifest'', sample_app_manifest)]) fs_without_manifest))
   \<and> snd (main sample_lib (sample_args\<lparr>gen_installer := False\<rparr>) no_powershell
            (JObj [(''AppManifest'', sample_app_manifest)]) fs_without_manifest)
         [''dist'', ''AppxManifest.xml'']
     = None"
proof -
  let ?fs = "fs_without_manifest"
  let ?args = "sample_args\<lparr>gen_installer := False\<rparr>"
  let ?run = "main sample_lib ?args no_powershell (JObj [(''AppManifest'', sample_app_manifest)]) ?fs"
  have h: "lacks (JObj [(''AppManifest'', sample_app_manifest)]) [''AppInstaller'']"
    by (simp add: subscript_def)
  note t = missing_installer_keys_abort [of "JObj [(''AppManifest'', sample_app_manifest)]"
             sample_lib ?args no_powershell ?fs]
  have m: "manifest_path ?args = [''dist'', ''AppxManifest.xml'']"
    by (simp add: manifest_path_def sample_args_def)
  note t1 = t [OF disjI1, OF h, THEN conjunct1]
  note t3 = t [OF disjI1, OF h, THEN conjunct2, THEN conjunct2, THEN conjunct2, unfolded m]
  have a: "?fs [''dist'', ''AppxManifest.xml''] = None"
    by (simp add: fs_without_manifest_def)
  have g: "\<not> gen_installer ?args" by simp
  show ?thesis
    using h g t1 t3 [unfolded a] by (intro conjI)
qed

section \<open>Properties of the certificate resolver\<close>

lemma three_line_output_lines:
  "splitlines three_line_output = [''Contoso signing'', ''0B'', ''CN=Contoso'']"
  by (simp add: splitlines_def three_line_output_def CR_def LF_def is_linebreak_def)

text \<open>
  C7, as the code has it. With no explicit subject, the run raises (before any write
  outside the asset directory) unless the decoded output of the query has exactly three
  lines; and when the query exits with status zero and its output has exactly three lines,
  the resolver returns the third.
\<close>

theorem get_cert_subject_shape:
  assumes "cert_subject args = None \<or> cert_subject args = Some []"
  shows "(\<not> (\<exists>out. stdout_decoded (powershell (searched_cert_path args)) = Some out
                    \<and> length (splitlines out) = 3)
            \<longrightarrow> isl (get_cert_subject args powershell)
                \<and> isl (fst (main lib args powershell manifest fs))
                \<and> {p. snd (main lib args powershell manifest fs) p \<noteq> fs p} \<subseteq> logo_targets args)
         \<and> (\<forall>out. returncode (powershell (searched_cert_path args)) = 0
                    \<and> stdout_decoded (powershell (searched_cert_path args)) = Some out
                    \<and> length (splitlines out) = 3
            \<longrightarrow> get_cert_subject args powershell = Inr (splitlines out ! 2))"
proof (intro conjI impI allI)
  assume bad: "\<not> (\<exists>out. stdout_decoded (powershell (searched_cert_path args)) = Some out
                        \<and> length (splitlines out) = 3)"
  show c: "isl (get_cert_subject args powershell)"
    using assms bad
    by (auto simp: get_cert_subject_def Let_def split: option.splits)
  have r: "isl (fst (construct_specs lib args powershell manifest fs))"
    by (rule construct_specs_raises_app) (rule construct_app_raises_cert [OF c])
  show "isl (fst (main lib args powershell manifest fs))"
    by (rule main_raises_early(1) [OF r])
  show "{p. snd (main lib args powershell manifest fs) p \<noteq> fs p} \<subseteq> logo_targets args"
    by (rule main_raises_early(2) [OF r])
next
  fix out
  assume "returncode (powershell (searched_cert_path args)) = 0
          \<and> stdout_decoded (powershell (searched_cert_path args)) = Some out
          \<and> length (splitlines out) = 3"
  then show "get_cert_subject args powershell = Inr (splitlines out ! 2)"
    using assms by (auto simp: get_cert_subject_def Let_def)
qed

theorem get_cert_subject_shape_witness:
  "get_cert_subject (sample_args\<lparr>cert_subject := None\<rparr>) (powershell_exit 0) = Inr ''CN=Contoso''
   \<and> isl (fst (main sample_lib (sample_args\<lparr>cert_subject := None\<rparr>) no_powershell
                 (sample_manifest ''https://example.com/tool.appinstaller'') sample_fs))"
proof -
  let ?args = "sample_args\<lparr>cert_subject := None\<rparr>"
  let ?m = "sample_manifest ''https://example.com/tool.appinstaller''"
  have n: "cert_subject ?args = None \<or> cert_subject ?args = Some []" by simp
  have ok: "returncode (powershell_exit 0 (searched_cert_path ?args)) = 0
            \<and> stdout_decoded (powershell_exit 0 (searched_cert_path ?args)) = Some three_line_output
            \<and> length (splitlines three_line_output) = 3"
    by (simp add: powershell_exit_def three_line_output_lines)
  have bad: "\<not> (\<exists>out. stdout_decoded (no_powershell (searched_cert_path ?args)) = Some out
                        \<and> length (splitlines out) = 3)"
    by (simp add: no_powershell_def splitlines_def)
  note good = get_cert_subject_shape [where args = ?args and powershell = "powershell_exit 0"
                and lib = sample_lib and manifest = ?m and fs = sample_fs,
                OF n, THEN conjunct2, rule_format, OF ok]
  note fail = get_cert_subject_shape [where args = ?args and powershell = no_powershell
                and lib = sample_lib and manifest = ?m and fs = sample_fs,
                OF n, THEN conjunct1, rule_format, OF bad, THEN conjunct2, THEN conjunct1]
  show ?thesis
    using good [unfolded three_line_output_lines] fail by simp
qed

text \<open>
  C7, as stated, returns the third line whenever there are three. A query that prints three
  lines and exits with status 1 raises \<^verbatim>\<open>CalledProcessError\<close> instead (\<^verbatim>\<open>check=True\<close>).
\<close>

theorem get_cert_subject_exit_status_counterexample:
  "length (splitlines three_line_output) = 3
   \<and> stdout_decoded (powershell_exit 1 (searched_cert_path (sample_args\<lparr>cert_subject := None\<rparr>))) = Some three_line_output
   \<and> get_cert_subject (sample_args\<lparr>cert_subject := None\<rparr>) (powershell_exit 1)
       = Inl (CalledProcessError 1)
   \<and> get_cert_subject (sample_args\<lparr>cert_subject := None\<rparr>) (powershell_exit 1)
       \<noteq> Inr (splitlines three_line_output ! 2)"
  by (simp add: three_line_output_lines get_cert_subject_def powershell_exit_def sample_args_def)

lemma not_linebreak_CR: "\<not> is_linebreak x \<Longrightarrow> x \<noteq> CHR 0x0D"
  by (auto simp: is_linebreak_def)

lemma splitlines_from_line:
  assumes "\<forall>ch\<in>set a. \<not> is_linebreak ch"
  shows "splitlines_from cur (a @ CR # LF # rest) = (cur @ a) # splitlines_from [] rest"
  using assms
proof (induction a arbitrary: cur)
  case Nil
  then show ?case by (simp add: CR_def LF_def)
next
  case (Cons x a)
  then have "\<not> is_linebreak x" and "x \<noteq> CHR 0x0D"
    by (simp_all add: not_linebreak_CR)
  then show ?case using Cons by simp
qed

lemma splitlines_three:
  assumes "\<forall>ch\<in>set a. \<not> is_linebreak ch" and "\<forall>ch\<in>set b. \<not> is_linebreak ch"
      and "\<forall>ch\<in>set c. \<not> is_linebreak ch"
  shows "splitlines (a @ [CR, LF] @ b @ [CR, LF] @ c @ [CR, LF]) = [a, b, c]"
proof -
  have "splitlines (a @ [CR, LF] @ b @ [CR, LF] @ c @ [CR, LF])
        = splitlines_from [] (a @ CR # LF # (b @ CR # LF # (c @ CR # LF # [])))"
    by (simp add: splitlines_def)
  also have "\<dots> = a # b # c # splitlines_from [] []"
    using assms by (simp only: splitlines_from_line append_Nil)
  finally show ?thesis by simp
qed

lemma splitlines_three_Cons:
  assumes "\<forall>ch\<in>set a. \<not> is_linebreak ch" and "\<forall>ch\<in>set b. \<not> is_linebreak ch"
      and "\<forall>ch\<in>set c. \<not> is_linebreak ch"
  shows "splitlines (a @ CR # LF # b @ CR # LF # c @ [CR, LF]) = [a, b, c]"
  using splitlines_three [OF assms] by simp

lemma sorted_le_last: "sorted zs \<Longrightarrow> z \<in> set zs \<Longrightarrow> z \<le> last (zs :: int list)"
proof (induction zs)
  case Nil
  then show ?case by simp
next
  case (Cons a zs)
  show ?case
  proof (cases "zs = []")
    case True
    then show ?thesis using Cons.prems by simp
  next
    case False
    then have "last zs \<in> set zs" by (rule last_in_set)
    then have "a \<le> last zs" using Cons.prems(1) by simp
    moreover have "z \<in> set zs \<Longrightarrow> z \<le> last zs" using Cons by simp
    ultimately show ?thesis using Cons.prems(2) False by auto
  qed
qed

lemma last_sort_key_max:
  assumes "xs \<noteq> []"
  shows "last (sort_key f xs) \<in> set xs
         \<and> (\<forall>y\<in>set xs. (f y :: int) \<le> f (last (sort_key f xs)))"
proof -
  let ?ys = "sort_key f xs"
  have ne: "?ys \<noteq> []" using assms by (metis length_sort length_0_conv)
  have s: "set ?ys = set xs" by simp
  have "last ?ys \<in> set ?ys" using ne by (rule last_in_set)
  moreover have "f y \<le> f (last ?ys)" if "y \<in> set xs" for y
  proof -
    have "sorted (map f ?ys)" by (rule sorted_sort_key)
    moreover have "f y \<in> set (map f ?ys)" using that by simp
    ultimately have "f y \<le> last (map f ?ys)" by (rule sorted_le_last)
    then show ?thesis using ne by (simp add: last_map)
  qed
  ultimately show ?thesis by simp
qed

text \<open>
  C3. With no explicit subject, a store that holds a certificate whose validity window
  contains the current time, and certificates in the window whose three printed properties
  are single lines: the resolver returns the subject of a certificate of the store that is
  in its window and expires no earlier than every other certificate in its window.
\<close>

theorem get_cert_subject_latest_valid:
  assumes "cert_subject args = None \<or> cert_subject args = Some []"
      and "\<exists>c\<in>set (store (searched_cert_path args)). NotBefore c < now \<and> now < NotAfter c"
      and "\<forall>c\<in>set (store (searched_cert_path args)).
             NotBefore c < now \<and> now < NotAfter c \<longrightarrow>
             (\<forall>ch\<in>set (FriendlyName c @ Thumbprint c @ Subject c). \<not> is_linebreak ch)"
  shows "\<exists>c\<in>set (store (searched_cert_path args)).
           NotBefore c < now \<and> now < NotAfter c
         \<and> (\<forall>c'\<in>set (store (searched_cert_path args)).
                NotBefore c' < now \<and> now < NotAfter c' \<longrightarrow> NotAfter c' \<le> NotAfter c)
         \<and> get_cert_subject args (cert_code store now) = Inr (Subject c)"
proof -
  let ?certs = "store (searched_cert_path args)"
  let ?valid = "filter_valid_certs now ?certs"
  let ?chosen = "last (sort_key NotAfter ?valid)"
  have ne: "?valid \<noteq> []"
    using assms(2) by (auto simp: filter_valid_certs_def filter_empty_conv)
  then have sorted_ne: "sort_key NotAfter ?valid \<noteq> []"
    by (metis length_sort length_0_conv)
  have chosen: "?chosen \<in> set ?valid"
    and latest: "\<forall>y\<in>set ?valid. NotAfter y \<le> NotAfter ?chosen"
    using last_sort_key_max [OF ne, of NotAfter] by simp_all
  have member: "?chosen \<in> set ?certs" and window: "NotBefore ?chosen < now \<and> now < NotAfter ?chosen"
    using chosen by (simp_all add: filter_valid_certs_def)
  have lines: "\<forall>ch\<in>set (FriendlyName ?chosen). \<not> is_linebreak ch"
              "\<forall>ch\<in>set (Thumbprint ?chosen). \<not> is_linebreak ch"
              "\<forall>ch\<in>set (Subject ?chosen). \<not> is_linebreak ch"
    using assms(3) member window by auto
  have out: "cert_code store now (searched_cert_path args) =
               \<lparr>returncode = 0,
                stdout_decoded = Some (FriendlyName ?chosen @ [CR, LF] @ Thumbprint ?chosen @ [CR, LF]
                                       @ Subject ?chosen @ [CR, LF])\<rparr>"
    using sorted_ne by (simp add: cert_code_def Let_def)
  have "get_cert_subject args (cert_code store now) = Inr (Subject ?chosen)"
    using assms(1) by (auto simp: get_cert_subject_def Let_def out splitlines_three_Cons [OF lines])
  moreover have "\<forall>c'\<in>set ?certs. NotBefore c' < now \<and> now < NotAfter c' \<longrightarrow> NotAfter c' \<le> NotAfter ?chosen"
    using latest by (simp add: filter_valid_certs_def)
  ultimately show ?thesis using member window by blast
qed

theorem get_cert_subject_latest_valid_witness:
  "get_cert_subject (sample_args\<lparr>cert_subject := None\<rparr>) (cert_code sample_store 100) = Inr ''CN=Late''"
proof -
  let ?args = "sample_args\<lparr>cert_subject := None\<rparr>"
  have a: "cert_subject ?args = None \<or> cert_subject ?args = Some []" by simp
  have b: "\<exists>c\<in>set (sample_store (searched_cert_path ?args)). NotBefore c < 100 \<and> 100 < NotAfter c"
    by (simp add: sample_store_def sample_certs_def)
  have c: "\<forall>c\<in>set (sample_store (searched_cert_path ?args)).
             NotBefore c < 100 \<and> 100 < NotAfter c \<longrightarrow>
             (\<forall>ch\<in>set (FriendlyName c @ Thumbprint c @ Subject c). \<not> is_linebreak ch)"
    by (simp add: sample_store_def sample_certs_def is_linebreak_def)
  from get_cert_subject_latest_valid
         [where args = ?args and store = sample_store and now = 100, OF a b c]
  obtain x where x: "x \<in> set sample_certs" "NotBefore x < 100" "100 < NotAfter x"
      "\<forall>c'\<in>set sample_certs. NotBefore c' < 100 \<and> 100 < NotAfter c' \<longrightarrow> NotAfter c' \<le> NotAfter x"
      "get_cert_subject ?args (cert_code sample_store 100) = Inr (Subject x)"
    by (auto simp: sample_store_def)
  have "Subject x = ''CN=Late''"
    using x(1-4) by (auto simp: sample_certs_def)
  then show ?thesis using x(5) by simp
qed

section \<open>Properties of whole runs\<close>

lemma touches_only_write: "touches_only {p} (write_xml lib p tree)"
  by (auto simp: touches_only_def write_xml_def split: option.splits if_splits)

lemma touches_only_unlink: "touches_only {p} (unlink_missing_ok p)"
  by (auto simp: touches_only_def unlink_missing_ok_def split: option.splits node.splits if_splits)

lemma touches_only_pad: "touches_only {p} (pad_app_installer p)"
  by (auto simp: touches_only_def pad_app_installer_def Let_def split: sum.splits if_splits)

lemma touches_only_emit_installer:
  "touches_only {p. \<exists>n. url_path_name lib (installer_uri installer) = Inr n
                        \<and> p = path_join lib (destination_dir args) n}
     (emit_installer lib args app installer)"
  unfolding emit_installer_def
  by (intro touches_only_bind_lift touches_only_bind
            touches_only_mono [OF touches_only_unlink] touches_only_mono [OF touches_only_write]
            touches_only_mono [OF touches_only_pad]) auto

lemma touches_only_emit_documents:
  assumes "no_manifest args"
  shows "touches_only {p. gen_installer args
                          \<and> (\<exists>n. url_path_name lib (installer_uri installer) = Inr n
                                  \<and> p = path_join lib (destination_dir args) n)}
           (emit_documents lib args app installer)"
proof (cases "gen_installer args")
  case True
  then show ?thesis
    unfolding emit_documents_def using assms
    by (auto intro!: touches_only_bind touches_only_lift touches_only_assert touches_only_emit_installer)
next
  case False
  then show ?thesis
    unfolding emit_documents_def using assms
    by (auto intro!: touches_only_bind touches_only_lift touches_only_assert)
qed

lemma construct_specs_Inr:
  assumes "construct_specs lib args powershell manifest fs = (Inr (app, installer), fs')"
  shows "\<exists>am im. subscript manifest ''AppManifest'' = Inr am
                 \<and> subscript manifest ''AppInstaller'' = Inr im
                 \<and> construct_app lib args powershell am fs = (Inr app, fs')
                 \<and> construct_installer im = Inr installer"
  using assms
  by (auto simp: construct_specs_def bind_io_def lift_def split: sum.splits prod.splits)

lemma construct_installer_uri:
  assumes "construct_installer im = Inr installer"
  shows "subscript im ''Uri'' = Inr (installer_uri installer)"
  using assms
  by (auto simp: construct_installer_def then_do_def split: sum.splits)

lemma construct_app_publisher:
  assumes "construct_app lib args powershell am fs = (Inr app, fs')"
  shows "get_cert_subject args powershell = Inr (publisher (cert app))"
  using assms
  by (auto simp: construct_app_def bind_io_def lift_def split: sum.splits prod.splits)

lemma touches_onlyD: "touches_only S m \<Longrightarrow> p \<notin> S \<Longrightarrow> snd (m fs) p = fs p"
  by (auto simp: touches_only_def)

lemma sample_setup_app_logos:
  assumes "destination_dir args = [''dist'']"
  shows "setup_app_logos sample_lib args [''logos''] bg sample_fs
         = (Inr \<lparr>logo_sq_44x44 = ''msix_assets'' @ [CHR 0x5C] @ ''logo_44x44.png'',
                 logo_sq_150x150 = ''msix_assets'' @ [CHR 0x5C] @ ''logo_150x150.png'',
                 bg_color = bg\<rparr>, sample_fs_staged)"
  using assms
  by (simp add: setup_app_logos_def Let_def bind_io_def mkdir_exist_ok_def assert_is_dir_def
                check_and_copy_logo_def lift_def sample_fs_def sample_fs_staged_def sample_lib_def)

lemma explicit_cert_subject:
  assumes "cert_subject args = Some s" and "s \<noteq> []"
  shows "get_cert_subject args powershell = Inr s"
  using assms by (simp add: get_cert_subject_def)

lemma sample_construct_app:
  assumes "destination_dir args = [''dist'']" and "logo_dir args = [''logos'']"
      and "cert_subject args = Some ''CN=Contoso''" and "app_version args = ''1.2.3.0''"
  shows "construct_app sample_lib args powershell sample_app_manifest sample_fs
         = (Inr sample_app, sample_fs_staged)"
proof -
  have k: "subscript2 sample_app_manifest ''Identity'' ''Name'' = Inr (JStr ''Contoso.App.Tool'')"
          "subscript2 sample_app_manifest ''Identity'' ''Arch'' = Inr (JStr ''x64'')"
          "subscript2 sample_app_manifest ''Properties'' ''DisplayName'' = Inr (JStr ''Tool'')"
          "subscript2 sample_app_manifest ''Properties'' ''Description'' = Inr (JStr ''A tool'')"
          "subscript2 sample_app_manifest ''Properties'' ''PublisherDisplayName'' = Inr (JStr ''Contoso'')"
          "subscript2 sample_app_manifest ''Application'' ''EntryPoint'' = Inr (JStr ''tool.exe'')"
          "subscript2 sample_app_manifest ''VisualElements'' ''BackgroundColor'' = Inr (JStr ''transparent'')"
          "subscript2 sample_app_manifest ''Dependencies'' ''MinVersion'' = Inr (JStr ''10.0.17763.0'')"
          "subscript2 sample_app_manifest ''Dependencies'' ''MaxVersionTested'' = Inr (JStr ''10.0.19045.0'')"
    by (simp_all add: subscript2_def subscript_def then_do_def sample_app_manifest_def)
  have c: "get_cert_subject args powershell = Inr ''CN=Contoso''"
    using assms(3) by (simp add: explicit_cert_subject)
  show ?thesis
    unfolding construct_app_def k c assms(2,4) bind_io_lift
    by (simp add: bind_io_def sample_setup_app_logos [OF assms(1)] lift_def sample_app_def)
qed

lemma sample_construct_installer:
  "construct_installer (sample_installer_manifest uri) = Inr (sample_installer\<lparr>installer_uri := JStr uri\<rparr>)"
  by (simp add: construct_installer_def subscript3_def subscript2_def subscript_def then_do_def
                sample_installer_manifest_def sample_installer_def)

lemma sample_construct_specs:
  assumes "destination_dir args = [''dist'']" and "logo_dir args = [''logos'']"
      and "cert_subject args = Some ''CN=Contoso''" and "app_version args = ''1.2.3.0''"
  shows "construct_specs sample_lib args powershell (sample_manifest uri) sample_fs
         = (Inr (sample_app, sample_installer\<lparr>installer_uri := JStr uri\<rparr>), sample_fs_staged)"
proof -
  have k: "subscript (sample_manifest uri) ''AppManifest'' = Inr sample_app_manifest"
          "subscript (sample_manifest uri) ''AppInstaller'' = Inr (sample_installer_manifest uri)"
    by (simp_all add: subscript_def sample_manifest_def)
  show ?thesis
    unfolding construct_specs_def k bind_io_lift
    by (simp add: bind_io_def sample_construct_app [OF assms] sample_construct_installer lift_def)
qed

text \<open>
  C9, as the code has it. With \<^verbatim>\<open>--no-manifest\<close>, and a descriptor whose file is not the
  manifest's file (no \<^verbatim>\<open>--gen-installer\<close>, or a descriptor URI whose file name, joined to
  the destination directory, reaches another file than \<open>AppxManifest.xml\<close> there), the run
  leaves the manifest's file as it was, whether it raises or not: an existing file keeps its
  bytes and a missing one stays missing. Which file a name reaches is the library's
  \<open>path_join\<close>, so the statement holds for every path flavour.
\<close>

theorem no_manifest_keeps_manifest_file:
  assumes "no_manifest args"
      and "gen_installer args \<longrightarrow>
             (\<forall>u n. subscript2 manifest ''AppInstaller'' ''Uri'' = Inr u
                    \<and> url_path_name lib u = Inr n
                  \<longrightarrow> path_join lib (destination_dir args) n \<noteq> manifest_path args)"
  shows "snd (main lib args powershell manifest fs) (manifest_path args) = fs (manifest_path args)"
proof (cases "construct_specs lib args powershell manifest fs")
  case (Pair r fs1)
  have f1: "fs1 (manifest_path args) = fs (manifest_path args)"
    using touches_onlyD [OF touches_only_construct_specs [of args lib powershell manifest]
                            manifest_path_not_logo_target [of args], of fs] Pair
    by simp
  show ?thesis
  proof (cases r)
    case (Inl e)
    then show ?thesis using Pair f1 by (simp add: main_def bind_io_def)
  next
    case (Inr specs)
    obtain app installer where specs: "specs = (app, installer)" by (cases specs)
    obtain im where im: "subscript manifest ''AppInstaller'' = Inr im"
        "construct_installer im = Inr installer"
      using construct_specs_Inr [of lib args powershell manifest fs app installer fs1] Pair Inr specs
      by auto
    have uri: "subscript2 manifest ''AppInstaller'' ''Uri'' = Inr (installer_uri installer)"
      using im construct_installer_uri [of im installer] by (simp add: subscript2_def then_do_def)
    have not_target:
      "manifest_path args \<notin> {p. gen_installer args
                                   \<and> (\<exists>n. url_path_name lib (installer_uri installer) = Inr n
                                           \<and> p = path_join lib (destination_dir args) n)}"
      using assms(2) uri by auto
    have "snd (emit_documents lib args app installer fs1) (manifest_path args) = fs1 (manifest_path args)"
      by (rule touches_onlyD [OF touches_only_emit_documents [OF assms(1)] not_target])
    moreover have "main lib args powershell manifest fs = emit_documents lib args app installer fs1"
      using Pair Inr specs by (simp add: main_def bind_io_def)
    ultimately show ?thesis using f1 by simp
  qed
qed

theorem no_manifest_keeps_manifest_file_witness:
  "no_manifest (sample_args\<lparr>no_manifest := True\<rparr>)
   \<and> snd (main sample_lib (sample_args\<lparr>no_manifest := True\<rparr>) no_powershell
            (sample_manifest ''https://example.com/tool.appinstaller'') sample_fs)
         [''dist'', ''AppxManifest.xml'']
     = Some (File ''earlier manifest'')"
proof -
  let ?args = "sample_args\<lparr>no_manifest := True\<rparr>"
  let ?m = "sample_manifest ''https://example.com/tool.appinstaller''"
  have a: "no_manifest ?args" by simp
  have b: "gen_installer ?args \<longrightarrow>
             (\<forall>u n. subscript2 ?m ''AppInstaller'' ''Uri'' = Inr u
                    \<and> url_path_name sample_lib u = Inr n
                  \<longrightarrow> path_join sample_lib (destination_dir ?args) n \<noteq> manifest_path ?args)"
    by (auto simp: subscript2_def subscript_def then_do_def sample_manifest_def
                   sample_installer_manifest_def sample_lib_def last_split_on_Cons
                   manifest_path_def sample_args_def
             simp del: split_on.simps)
  have m: "manifest_path ?args = [''dist'', ''AppxManifest.xml'']"
    by (simp add: manifest_path_def sample_args_def)
  have c: "sample_fs [''dist'', ''AppxManifest.xml''] = Some (File ''earlier manifest'')"
    by (simp add: sample_fs_def)
  show ?thesis
    using a no_manifest_keeps_manifest_file [OF a b, of no_powershell sample_fs, unfolded m c]
    by (intro conjI)
qed

text \<open>
  C9, as stated, holds for every run with \<^verbatim>\<open>--no-manifest\<close>. With \<^verbatim>\<open>--gen-installer\<close> and
  the descriptor URI \<^verbatim>\<open>https://example.com/AppxManifest.xml\<close>, the descriptor's path is
  the manifest's path: the existing file is unlinked and replaced by the padded descriptor.
\<close>

theorem no_manifest_overwritten_counterexample:
  "no_manifest (sample_args\<lparr>no_manifest := True\<rparr>)
   \<and> sample_fs [''dist'', ''AppxManifest.xml''] = Some (File ''earlier manifest'')
   \<and> snd (main sample_lib (sample_args\<lparr>no_manifest := True\<rparr>) no_powershell
            (sample_manifest ''https://example.com/AppxManifest.xml'') sample_fs)
         [''dist'', ''AppxManifest.xml'']
     = Some (File (''<AppInstaller />'' @ [LF] @ replicate 4079 SP))"
proof -
  let ?args = "sample_args\<lparr>no_manifest := True\<rparr>"
  let ?uri = "''https://example.com/AppxManifest.xml''"
  let ?inst = "sample_installer\<lparr>installer_uri := JStr ?uri\<rparr>"
  let ?p = "[''dist'', ''AppxManifest.xml'']"
  have n: "url_path_name sample_lib (installer_uri ?inst) = Inr ''AppxManifest.xml''"
    by (simp add: sample_lib_def last_split_on_Cons del: split_on.simps)
  have j: "path_join sample_lib (destination_dir ?args) ''AppxManifest.xml'' = ?p"
          "path_join sample_lib (destination_dir sample_args) ''AppxManifest.xml'' = ?p"
    by (simp_all add: sample_lib_def sample_args_def)
  have u: "unlink_missing_ok ?p sample_fs_staged = (Inr (), sample_fs_staged(?p := None))"
    by (simp add: unlink_missing_ok_def sample_fs_staged_def sample_fs_def)
  have w: "write_xml sample_lib ?p (gen_appx_installer sample_lib ?args sample_app ?inst)
             (sample_fs_staged(?p := None))
           = (Inr (), sample_fs_staged(?p \<mapsto> File ''<AppInstaller />''))"
    by (simp add: write_xml_def sample_lib_def gen_appx_installer_def sample_fs_staged_def sample_fs_def)
  have pd: "pad_app_installer ?p (sample_fs_staged(?p \<mapsto> File ''<AppInstaller />''))
            = (Inr (), sample_fs_staged(?p \<mapsto> File (''<AppInstaller />'' @ [LF] @ replicate 4079 SP)))"
    by (simp add: pad_app_installer_def open_append_def file_pad_limit_def)
  have ei: "emit_installer sample_lib ?args sample_app ?inst sample_fs_staged
            = (Inr (), sample_fs_staged(?p \<mapsto> File (''<AppInstaller />'' @ [LF] @ replicate 4079 SP)))"
    unfolding emit_installer_def n j bind_io_lift
    by (simp add: bind_io_def u w pd j)
  have d: "assert_is_dir (destination_dir sample_args) msg sample_fs_staged = (Inr (), sample_fs_staged)" for msg
    by (simp add: assert_is_dir_def sample_args_def sample_fs_staged_def sample_fs_def)
  have g: "no_manifest ?args" "gen_installer ?args"
    by (simp_all add: sample_args_def)
  have e: "emit_documents sample_lib ?args sample_app ?inst sample_fs_staged
           = (Inr (), sample_fs_staged(?p \<mapsto> File (''<AppInstaller />'' @ [LF] @ replicate 4079 SP)))"
    unfolding emit_documents_def
    by (simp add: bind_io_def d g ei lift_def)
  have "main sample_lib ?args no_powershell (sample_manifest ?uri) sample_fs
        = (Inr (), sample_fs_staged(?p \<mapsto> File (''<AppInstaller />'' @ [LF] @ replicate 4079 SP)))"
  proof -
    have cs: "construct_specs sample_lib ?args no_powershell (sample_manifest ?uri) sample_fs
              = (Inr (sample_app, ?inst), sample_fs_staged)"
      by (rule sample_construct_specs) (simp_all add: sample_args_def)
    show ?thesis by (simp add: main_def bind_io_def cs e)
  qed
  then show ?thesis by (simp add: sample_fs_def)
qed


lemma gen_appx_manifest_publisher:
  assumes "gen_appx_manifest app = Inr pkg"
  shows "\<exists>ident. descend [''Identity''] pkg = Some ident
                 \<and> get_attr ''Publisher'' ident = Some (JStr (publisher (cert app)))"
  using assms
  by (auto simp: gen_appx_manifest_def then_do_def find_child_def get_attr_def split: sum.splits)

lemma emit_manifest_writes:
  assumes "gen_appx_manifest app = Inr pkg"
  shows "emit_manifest lib args app = write_xml lib (manifest_path args) pkg"
  using assms by (auto simp: emit_manifest_def bind_io_lift)

lemma emit_documents_manifest:
  assumes "\<not> no_manifest args"
  shows "(\<exists>e. emit_documents lib args app installer fs1 = (Inl e, fs1))
         \<or> (\<exists>pkg. gen_appx_manifest app = Inr pkg
                \<and> emit_documents lib args app installer fs1
                    = bind_io (lift (case snd (xml_write lib pkg) of None \<Rightarrow> Inr () | Some e \<Rightarrow> Inl e))
                        (\<lambda>_. if gen_installer args then emit_installer lib args app installer
                             else lift (Inr ()))
                        (fs1(manifest_path args \<mapsto> File (fst (xml_write lib pkg)))))"
proof (cases "fs1 (destination_dir args) = Some Dir")
  case False
  then show ?thesis by (simp add: emit_documents_def bind_io_def assert_is_dir_def)
next
  case dir: True
  show ?thesis
  proof (cases "gen_appx_manifest app")
    case (Inl e)
    then show ?thesis
      using assms dir
      by (simp add: emit_documents_def emit_manifest_def bind_io_def assert_is_dir_def lift_def)
  next
    case (Inr pkg)
    show ?thesis
    proof (cases "fs1 (manifest_path args) = Some Dir")
      case True
      then show ?thesis
        using assms dir Inr
        by (simp add: emit_documents_def emit_manifest_def bind_io_def assert_is_dir_def lift_def
                      write_xml_def)
    next
      case False
      have open_ok: "\<not> (manifest_path args = [] \<or> fs1 (manifest_path args) = Some Dir
                         \<or> fs1 (butlast (manifest_path args)) \<noteq> Some Dir)"
        using False dir by (simp add: manifest_path_def)
      have "emit_documents lib args app installer fs1
            = bind_io (lift (case snd (xml_write lib pkg) of None \<Rightarrow> Inr () | Some e \<Rightarrow> Inl e))
                (\<lambda>_. if gen_installer args then emit_installer lib args app installer
                     else lift (Inr ()))
                (fs1(manifest_path args \<mapsto> File (fst (xml_write lib pkg))))"
        using assms dir Inr open_ok
        by (simp add: emit_documents_def emit_manifest_def bind_io_def assert_is_dir_def lift_def
                      write_xml_def split: option.splits)
      then show ?thesis using Inr by blast
    qed
  qed
qed

lemma construct_installer_flag:
  assumes "construct_installer im = Inr installer"
  shows "subscript2 im ''UpdateSettings'' ''AutomaticBackgroundTask''
         = Inr (automatic_background_task installer)"
  using assms
  by (auto simp: construct_installer_def then_do_def split: sum.splits)

lemma emit_installer_ok:
  assumes "emit_installer lib args app installer fs = (Inr (), fs')"
  shows "\<exists>name. url_path_name lib (installer_uri installer) = Inr name
              \<and> snd (xml_write lib (gen_appx_installer lib args app installer)) = None
              \<and> length (fst (xml_write lib (gen_appx_installer lib args app installer))) < 4096
              \<and> fs' (path_join lib (destination_dir args) name)
                  = Some (File (fst (xml_write lib (gen_appx_installer lib args app installer)) @ [LF]
                          @ replicate (4095 - length (fst (xml_write lib
                                        (gen_appx_installer lib args app installer)))) SP))"
proof -
  let ?tree = "gen_appx_installer lib args app installer"
  obtain name where name: "url_path_name lib (installer_uri installer) = Inr name"
    using assms by (cases "url_path_name lib (installer_uri installer)")
                   (auto simp: emit_installer_def bind_io_lift)
  let ?p = "path_join lib (destination_dir args) name"
  have e: "bind_io (unlink_missing_ok ?p) (\<lambda>_. bind_io (write_xml lib ?p ?tree)
             (\<lambda>_. pad_app_installer ?p)) fs = (Inr (), fs')"
    using assms name by (simp add: emit_installer_def bind_io_lift)
  obtain fs2 where u: "unlink_missing_ok ?p fs = (Inr (), fs2)"
    and e2: "bind_io (write_xml lib ?p ?tree) (\<lambda>_. pad_app_installer ?p) fs2 = (Inr (), fs')"
    using e by (auto simp: bind_io_def split: sum.splits prod.splits)
  obtain fs3 where w: "write_xml lib ?p ?tree fs2 = (Inr (), fs3)"
    and pd: "pad_app_installer ?p fs3 = (Inr (), fs')"
    using e2 by (auto simp: bind_io_def split: sum.splits prod.splits)
  have ok: "snd (xml_write lib ?tree) = None" and fs3: "fs3 = fs2(?p \<mapsto> File (fst (xml_write lib ?tree)))"
    using w by (auto simp: write_xml_def split: if_splits option.splits)
  have "length (fst (xml_write lib ?tree)) < 4096
        \<and> fs' = fs3(?p \<mapsto> File (fst (xml_write lib ?tree) @ [LF]
                        @ replicate (4095 - length (fst (xml_write lib ?tree))) SP))"
    using pd unfolding fs3
    by (auto simp: pad_app_installer_def open_append_def file_pad_limit_def Let_def nat_diff_distrib
             split: if_splits)
  then show ?thesis using name ok by auto
qed

lemma emit_documents_ok_installer:
  assumes "gen_installer args" and "emit_documents lib args app installer fs1 = (Inr (), fs')"
  shows "\<exists>fs2. emit_installer lib args app installer fs2 = (Inr (), fs')"
  using assms
  by (auto simp: emit_documents_def bind_io_def lift_def split: sum.splits prod.splits if_splits)

lemma sample_main_ok:
  "\<exists>fs'. main sample_lib sample_args no_powershell
            (sample_manifest ''https://example.com/tool.appinstaller'') sample_fs = (Inr (), fs')"
proof -
  let ?uri = "''https://example.com/tool.appinstaller''"
  let ?inst = "sample_installer\<lparr>installer_uri := JStr ?uri\<rparr>"
  let ?p = "[''dist'', ''tool.appinstaller'']"
  let ?mp = "[''dist'', ''AppxManifest.xml'']"
  let ?fs2 = "sample_fs_staged(?mp \<mapsto> File ''<Package />'')"
  have cs: "construct_specs sample_lib sample_args no_powershell (sample_manifest ?uri) sample_fs
            = (Inr (sample_app, ?inst), sample_fs_staged)"
    by (rule sample_construct_specs) (simp_all add: sample_args_def)
  obtain pkg where pkg: "gen_appx_manifest sample_app = Inr pkg" and tag: "tag pkg = ''Package''"
    by (simp add: gen_appx_manifest_def split_dot_def then_do_def sample_app_def)
  have flags: "\<not> no_manifest sample_args" "gen_installer sample_args"
    by (simp_all add: sample_args_def)
  have mp: "manifest_path sample_args = ?mp"
    by (simp add: manifest_path_def sample_args_def)
  have d: "assert_is_dir (destination_dir sample_args) msg sample_fs_staged = (Inr (), sample_fs_staged)" for msg
    by (simp add: assert_is_dir_def sample_args_def sample_fs_staged_def sample_fs_def)
  have w: "write_xml sample_lib ?mp pkg sample_fs_staged = (Inr (), ?fs2)"
    using tag by (simp add: write_xml_def sample_lib_def sample_fs_staged_def sample_fs_def)
  have n: "url_path_name sample_lib (installer_uri ?inst) = Inr ''tool.appinstaller''"
    by (simp add: sample_lib_def last_split_on_Cons del: split_on.simps)
  have j: "path_join sample_lib (destination_dir sample_args) ''tool.appinstaller'' = ?p"
    by (simp add: sample_lib_def sample_args_def)
  have u: "unlink_missing_ok ?p ?fs2 = (Inr (), ?fs2)"
    by (simp add: unlink_missing_ok_def sample_fs_staged_def sample_fs_def)
  have wi: "write_xml sample_lib ?p (gen_appx_installer sample_lib sample_args sample_app ?inst) ?fs2
            = (Inr (), ?fs2(?p \<mapsto> File ''<AppInstaller />''))"
    by (simp add: write_xml_def sample_lib_def gen_appx_installer_def sample_fs_staged_def sample_fs_def)
  have pd: "fst (pad_app_installer ?p (?fs2(?p \<mapsto> File ''<AppInstaller />''))) = Inr ()"
    by (simp add: pad_app_installer_def open_append_def file_pad_limit_def)
  have ei: "fst (emit_installer sample_lib sample_args sample_app ?inst ?fs2) = Inr ()"
    unfolding emit_installer_def n j bind_io_lift
    by (simp add: bind_io_def u wi pd j)
  have "fst (emit_documents sample_lib sample_args sample_app ?inst sample_fs_staged) = Inr ()"
    unfolding emit_documents_def using flags
    by (simp add: bind_io_def d emit_manifest_writes [OF pkg] mp w ei)
  then have "fst (main sample_lib sample_args no_powershell (sample_manifest ?uri) sample_fs) = Inr ()"
    by (simp add: main_def bind_io_def cs)
  then show ?thesis by (metis prod.collapse)
qed

lemma touches_only_emit_manifest: "touches_only {manifest_path args} (emit_manifest lib args app)"
  unfolding emit_manifest_def
  by (intro touches_only_bind_lift touches_only_write)

lemma installer_run_cases:
  assumes "gen_installer args"
  shows "(\<exists>e fs'. main lib args powershell manifest fs = (Inl e, fs')
                 \<and> {p. fs' p \<noteq> fs p} \<subseteq> logo_targets args \<union> {manifest_path args})
         \<or> (\<exists>flag uri name tree fs2.
                subscript3 manifest ''AppInstaller'' ''UpdateSettings'' ''AutomaticBackgroundTask'' = Inr flag
              \<and> subscript2 manifest ''AppInstaller'' ''Uri'' = Inr uri
              \<and> url_path_name lib uri = Inr name
              \<and> descend [''UpdateSettings'', ''AutomaticBackgroundTask''] tree
                  = (if truthy flag then Some (Element ''AutomaticBackgroundTask'' [] JNull []) else None)
              \<and> main lib args powershell manifest fs
                  = bind_io (unlink_missing_ok (path_join lib (destination_dir args) name))
                      (\<lambda>_. bind_io (write_xml lib (path_join lib (destination_dir args) name) tree)
                      (\<lambda>_. pad_app_installer (path_join lib (destination_dir args) name))) fs2)"
proof (cases "construct_specs lib args powershell manifest fs")
  case (Pair r fs1)
  have f1: "{p. fs1 p \<noteq> fs p} \<subseteq> logo_targets args"
    using touches_only_construct_specs [of args lib powershell manifest] Pair
    by (auto simp: touches_only_def dest!: spec [of _ fs])
  show ?thesis
  proof (cases r)
    case (Inl e)
    then have "main lib args powershell manifest fs = (Inl e, fs1)"
      using Pair by (simp add: main_def bind_io_def)
    then show ?thesis using f1 by blast
  next
    case (Inr specs)
    obtain app installer where specs: "specs = (app, installer)" by (cases specs)
    have cs: "construct_specs lib args powershell manifest fs = (Inr (app, installer), fs1)"
      using Pair Inr specs by simp
    have m: "main lib args powershell manifest fs = emit_documents lib args app installer fs1"
      using cs by (simp add: main_def bind_io_def)
    obtain im where im: "subscript manifest ''AppInstaller'' = Inr im"
        "construct_installer im = Inr installer"
      using construct_specs_Inr [OF cs] by blast
    let ?flag = "automatic_background_task installer"
    let ?tree = "gen_appx_installer lib args app installer"
    have flag: "subscript3 manifest ''AppInstaller'' ''UpdateSettings'' ''AutomaticBackgroundTask''
                = Inr ?flag"
      using im construct_installer_flag [OF im(2)]
      by (auto simp: subscript3_def subscript2_def then_do_def split: sum.splits)
    have uri: "subscript2 manifest ''AppInstaller'' ''Uri'' = Inr (installer_uri installer)"
      using im construct_installer_uri [OF im(2)] by (simp add: subscript2_def then_do_def)
    have d: "descend [''UpdateSettings'', ''AutomaticBackgroundTask''] ?tree
             = (if truthy ?flag then Some (Element ''AutomaticBackgroundTask'' [] JNull []) else None)"
      by (simp add: gen_appx_installer_def find_child_def)
    let ?block = "if \<not> no_manifest args then emit_manifest lib args app else lift (Inr ())"
    have tb: "touches_only {manifest_path args} ?block"
      by (simp add: touches_only_emit_manifest touches_only_lift)
    show ?thesis
    proof (cases "fs1 (destination_dir args) = Some Dir")
      case False
      then have "main lib args powershell manifest fs
                 = (Inl (AssertionError [Lit ''Destination directory '', FPath (destination_dir args),
                                         Lit '' does not exist'']), fs1)"
        using m by (simp add: emit_documents_def bind_io_def assert_is_dir_def)
      then show ?thesis using f1 by blast
    next
      case True
      obtain r2 fs2 where b: "?block fs1 = (r2, fs2)" by (cases "?block fs1")
      have f2: "{p. fs2 p \<noteq> fs p} \<subseteq> logo_targets args \<union> {manifest_path args}"
      proof
        fix p assume "p \<in> {p. fs2 p \<noteq> fs p}"
        then have "fs2 p \<noteq> fs1 p \<or> fs1 p \<noteq> fs p" by auto
        moreover have "fs2 p \<noteq> fs1 p \<Longrightarrow> p = manifest_path args"
          using touches_onlyD [OF tb, of p fs1] b by auto
        ultimately show "p \<in> logo_targets args \<union> {manifest_path args}"
          using f1 by auto
      qed
      have m2: "main lib args powershell manifest fs
                = (case r2 of Inl e \<Rightarrow> (Inl e, fs2)
                   | Inr u \<Rightarrow> emit_installer lib args app installer fs2)"
        using m True b assms
        by (simp add: emit_documents_def bind_io_def assert_is_dir_def split: sum.splits)
      show ?thesis
      proof (cases r2)
        case (Inl e)
        then show ?thesis using m2 f2 by auto
      next
        case ok: (Inr u)
        show ?thesis
        proof (cases "url_path_name lib (installer_uri installer)")
          case (Inl e)
          then have "main lib args powershell manifest fs = (Inl e, fs2)"
            using m2 ok by (simp add: emit_installer_def bind_io_lift)
          then show ?thesis using f2 by blast
        next
          case (Inr name)
          then have "main lib args powershell manifest fs
                     = bind_io (unlink_missing_ok (path_join lib (destination_dir args) name))
                         (\<lambda>_. bind_io (write_xml lib (path_join lib (destination_dir args) name) ?tree)
                         (\<lambda>_. pad_app_installer (path_join lib (destination_dir args) name))) fs2"
            using m2 ok by (simp add: emit_installer_def bind_io_lift)
          then have "\<exists>flag uri name tree fs2.
                subscript3 manifest ''AppInstaller'' ''UpdateSettings'' ''AutomaticBackgroundTask'' = Inr flag
              \<and> subscript2 manifest ''AppInstaller'' ''Uri'' = Inr uri
              \<and> url_path_name lib uri = Inr name
              \<and> descend [''UpdateSettings'', ''AutomaticBackgroundTask''] tree
                  = (if truthy flag then Some (Element ''AutomaticBackgroundTask'' [] JNull []) else None)
              \<and> main lib args powershell manifest fs
                  = bind_io (unlink_missing_ok (path_join lib (destination_dir args) name))
                      (\<lambda>_. bind_io (write_xml lib (path_join lib (destination_dir args) name) tree)
                      (\<lambda>_. pad_app_installer (path_join lib (destination_dir args) name))) fs2"
            using flag uri Inr d
            by (intro exI [of _ ?flag] exI [of _ "installer_uri installer"] exI [of _ name]
                      exI [of _ ?tree] exI [of _ fs2] conjI)
          then show ?thesis by (rule disjI2)
        qed
      qed
    qed
  qed
qed

lemma installer_run_ok:
  assumes "gen_installer args"
      and "main lib args powershell manifest fs = (Inr (), fs')"
  shows "\<exists>flag uri name tree.
           subscript3 manifest ''AppInstaller'' ''UpdateSettings'' ''AutomaticBackgroundTask'' = Inr flag
         \<and> subscript2 manifest ''AppInstaller'' ''Uri'' = Inr uri
         \<and> url_path_name lib uri = Inr name
         \<and> descend [''UpdateSettings'', ''AutomaticBackgroundTask''] tree
             = (if truthy flag then Some (Element ''AutomaticBackgroundTask'' [] JNull []) else None)
         \<and> (flag = JBool True \<longrightarrow>
               descend [''UpdateSettings'', ''AutomaticBackgroundTask''] tree
               = Some (Element ''AutomaticBackgroundTask'' [] JNull []))
         \<and> (flag = JBool False \<longrightarrow>
               descend [''UpdateSettings'', ''AutomaticBackgroundTask''] tree = None)
         \<and> snd (xml_write lib tree) = None
         \<and> fs' (path_join lib (destination_dir args) name)
             = Some (File (fst (xml_write lib tree) @ [LF]
                           @ replicate (4095 - length (fst (xml_write lib tree))) SP))"
proof -
  obtain r fs1 where cs0: "construct_specs lib args powershell manifest fs = (r, fs1)"
    by (cases "construct_specs lib args powershell manifest fs")
  obtain specs where r: "r = Inr specs"
    using assms(2) cs0 by (cases r) (auto simp: main_def bind_io_def)
  obtain app installer where specs: "specs = (app, installer)" by (cases specs)
  have cs: "construct_specs lib args powershell manifest fs = (Inr (app, installer), fs1)"
    using cs0 r specs by simp
  have m: "emit_documents lib args app installer fs1 = (Inr (), fs')"
    using assms(2) cs by (simp add: main_def bind_io_def)
  obtain im where im: "subscript manifest ''AppInstaller'' = Inr im"
      "construct_installer im = Inr installer"
    using construct_specs_Inr [OF cs] by blast
  let ?flag = "automatic_background_task installer"
  let ?tree = "gen_appx_installer lib args app installer"
  have flag: "subscript3 manifest ''AppInstaller'' ''UpdateSettings'' ''AutomaticBackgroundTask''
              = Inr ?flag"
    using im construct_installer_flag [OF im(2)]
    by (auto simp: subscript3_def subscript2_def then_do_def split: sum.splits)
  have uri: "subscript2 manifest ''AppInstaller'' ''Uri'' = Inr (installer_uri installer)"
    using im construct_installer_uri [OF im(2)] by (simp add: subscript2_def then_do_def)
  obtain fs2 where "emit_installer lib args app installer fs2 = (Inr (), fs')"
    using emit_documents_ok_installer [OF assms(1) m] by blast
  then obtain name where name: "url_path_name lib (installer_uri installer) = Inr name"
      and ok: "snd (xml_write lib ?tree) = None"
      and written: "fs' (path_join lib (destination_dir args) name)
                 = Some (File (fst (xml_write lib ?tree) @ [LF]
                               @ replicate (4095 - length (fst (xml_write lib ?tree))) SP))"
    using emit_installer_ok by blast
  have d: "descend [''UpdateSettings'', ''AutomaticBackgroundTask''] ?tree
           = (if truthy ?flag then Some (Element ''AutomaticBackgroundTask'' [] JNull []) else None)"
    by (simp add: gen_appx_installer_def find_child_def)
  have t: "?flag = JBool True \<longrightarrow>
             descend [''UpdateSettings'', ''AutomaticBackgroundTask''] ?tree
             = Some (Element ''AutomaticBackgroundTask'' [] JNull [])"
    using d by simp
  have f: "?flag = JBool False \<longrightarrow>
             descend [''UpdateSettings'', ''AutomaticBackgroundTask''] ?tree = None"
    using d by simp
  show ?thesis
    using flag uri name d t f ok written
    by (intro exI [of _ ?flag] exI [of _ "installer_uri installer"] exI [of _ name]
              exI [of _ ?tree] conjI)
qed

text \<open>
  C4. In a run that is to write the manifest, one of two things happens. Either the run
  raises with the file system as the building of the two dataclass instances left it, so
  that the manifest block has written nothing. Or the instances are built, the resolver
  returned a subject (the value of \<^verbatim>\<open>--cert-subject\<close> when that is given and not empty),
  the manifest tree is generated, the \<open>Publisher\<close> attribute of its \<open>Identity\<close> element is
  that subject unchanged, and the run is: \<open>AppxManifest.xml\<close> receives what the serializer
  writes for this tree, the serializer's exception (if any) is raised, and then the installer
  block runs if \<^verbatim>\<open>--gen-installer\<close> is given.
\<close>

theorem manifest_publisher_is_cert_subject:
  assumes "\<not> no_manifest args"
  shows "(\<exists>e. main lib args powershell manifest fs
               = (Inl e, snd (construct_specs lib args powershell manifest fs)))
         \<or> (\<exists>app installer fs1 subj pkg ident.
                construct_specs lib args powershell manifest fs = (Inr (app, installer), fs1)
              \<and> get_cert_subject args powershell = Inr subj
              \<and> (\<forall>s. cert_subject args = Some s \<and> s \<noteq> [] \<longrightarrow> subj = s)
              \<and> gen_appx_manifest app = Inr pkg
              \<and> descend [''Identity''] pkg = Some ident
              \<and> get_attr ''Publisher'' ident = Some (JStr subj)
              \<and> main lib args powershell manifest fs
                  = bind_io (lift (case snd (xml_write lib pkg) of None \<Rightarrow> Inr () | Some e \<Rightarrow> Inl e))
                      (\<lambda>_. if gen_installer args then emit_installer lib args app installer
                           else lift (Inr ()))
                      (fs1(manifest_path args \<mapsto> File (fst (xml_write lib pkg)))))"
proof (cases "construct_specs lib args powershell manifest fs")
  case (Pair r fs1)
  show ?thesis
  proof (cases r)
    case (Inl e)
    then have "main lib args powershell manifest fs = (Inl e, fs1)"
      using Pair by (simp add: main_def bind_io_def)
    then show ?thesis using Pair by simp
  next
    case (Inr specs)
    obtain app installer where specs: "specs = (app, installer)" by (cases specs)
    have cs: "construct_specs lib args powershell manifest fs = (Inr (app, installer), fs1)"
      using Pair Inr specs by simp
    have m: "main lib args powershell manifest fs = emit_documents lib args app installer fs1"
      using cs by (simp add: main_def bind_io_def)
    obtain am where "construct_app lib args powershell am fs = (Inr app, fs1)"
      using construct_specs_Inr [OF cs] by blast
    then have subj: "get_cert_subject args powershell = Inr (publisher (cert app))"
      by (rule construct_app_publisher)
    have explicit: "\<forall>s. cert_subject args = Some s \<and> s \<noteq> [] \<longrightarrow> publisher (cert app) = s"
      using subj by (auto simp: explicit_cert_subject)
    from emit_documents_manifest [OF assms, of lib app installer fs1]
    show ?thesis
    proof
      assume "\<exists>e. emit_documents lib args app installer fs1 = (Inl e, fs1)"
      then show ?thesis using m Pair by simp
    next
      assume "\<exists>pkg. gen_appx_manifest app = Inr pkg
                \<and> emit_documents lib args app installer fs1
                    = bind_io (lift (case snd (xml_write lib pkg) of None \<Rightarrow> Inr () | Some e \<Rightarrow> Inl e))
                        (\<lambda>_. if gen_installer args then emit_installer lib args app installer
                             else lift (Inr ()))
                        (fs1(manifest_path args \<mapsto> File (fst (xml_write lib pkg))))"
      then obtain pkg where pkg: "gen_appx_manifest app = Inr pkg"
        and e: "emit_documents lib args app installer fs1
                = bind_io (lift (case snd (xml_write lib pkg) of None \<Rightarrow> Inr () | Some e \<Rightarrow> Inl e))
                    (\<lambda>_. if gen_installer args then emit_installer lib args app installer
                         else lift (Inr ()))
                    (fs1(manifest_path args \<mapsto> File (fst (xml_write lib pkg))))"
        by blast
      obtain ident where ident: "descend [''Identity''] pkg = Some ident"
          "get_attr ''Publisher'' ident = Some (JStr (publisher (cert app)))"
        using gen_appx_manifest_publisher [OF pkg] by blast
      have "\<exists>app installer fs1 subj pkg ident.
                construct_specs lib args powershell manifest fs = (Inr (app, installer), fs1)
              \<and> get_cert_subject args powershell = Inr subj
              \<and> (\<forall>s. cert_subject args = Some s \<and> s \<noteq> [] \<longrightarrow> subj = s)
              \<and> gen_appx_manifest app = Inr pkg
              \<and> descend [''Identity''] pkg = Some ident
              \<and> get_attr ''Publisher'' ident = Some (JStr subj)
              \<and> main lib args powershell manifest fs
                  = bind_io (lift (case snd (xml_write lib pkg) of None \<Rightarrow> Inr () | Some e \<Rightarrow> Inl e))
                      (\<lambda>_. if gen_installer args then emit_installer lib args app installer
                           else lift (Inr ()))
                      (fs1(manifest_path args \<mapsto> File (fst (xml_write lib pkg))))"
        using cs subj explicit pkg ident e m
        by (intro exI [of _ app] exI [of _ installer] exI [of _ fs1]
                  exI [of _ "publisher (cert app)"] exI [of _ pkg] exI [of _ ident]) simp
      then show ?thesis by (rule disjI2)
    qed
  qed
qed

theorem manifest_publisher_is_cert_subject_witness:
  "\<not> no_manifest sample_args \<and> gen_installer sample_args
   \<and> (\<exists>app installer fs1 pkg ident.
         construct_specs sample_lib sample_args no_powershell
           (sample_manifest ''https://example.com/tool.appinstaller'') sample_fs
         = (Inr (app, installer), fs1)
       \<and> get_cert_subject sample_args no_powershell = Inr ''CN=Contoso''
       \<and> gen_appx_manifest app = Inr pkg
       \<and> descend [''Identity''] pkg = Some ident
       \<and> get_attr ''Publisher'' ident = Some (JStr ''CN=Contoso'')
       \<and> main sample_lib sample_args no_powershell
            (sample_manifest ''https://example.com/tool.appinstaller'') sample_fs
          = emit_installer sample_lib sample_args app installer
              (fs1(manifest_path sample_args \<mapsto> File (fst (xml_write sample_lib pkg)))))"
proof -
  let ?m = "sample_manifest ''https://example.com/tool.appinstaller''"
  have flags: "\<not> no_manifest sample_args" "gen_installer sample_args"
    by (simp_all add: sample_args_def)
  have given: "cert_subject sample_args = Some ''CN=Contoso'' \<and> ''CN=Contoso'' \<noteq> []"
    by (simp add: sample_args_def)
  obtain fs' where ok: "main sample_lib sample_args no_powershell ?m sample_fs = (Inr (), fs')"
    using sample_main_ok by blast
  have no_error: "xml_write sample_lib t = (fst (xml_write sample_lib t), None)" for t
    by (simp add: sample_lib_def)
  from manifest_publisher_is_cert_subject [OF flags(1), of sample_lib no_powershell ?m sample_fs]
  obtain app installer fs1 subj pkg ident where
      a: "construct_specs sample_lib sample_args no_powershell ?m sample_fs = (Inr (app, installer), fs1)"
    and b: "get_cert_subject sample_args no_powershell = Inr subj"
    and c: "\<forall>s. cert_subject sample_args = Some s \<and> s \<noteq> [] \<longrightarrow> subj = s"
    and d: "gen_appx_manifest app = Inr pkg"
    and e: "descend [''Identity''] pkg = Some ident"
    and f: "get_attr ''Publisher'' ident = Some (JStr subj)"
    and g: "main sample_lib sample_args no_powershell ?m sample_fs
            = bind_io (lift (case snd (xml_write sample_lib pkg) of None \<Rightarrow> Inr () | Some e \<Rightarrow> Inl e))
                (\<lambda>_. if gen_installer sample_args
                     then emit_installer sample_lib sample_args app installer else lift (Inr ()))
                (fs1(manifest_path sample_args \<mapsto> File (fst (xml_write sample_lib pkg))))"
    using ok by auto
  have subj: "subj = ''CN=Contoso''" using c given by blast
  have "snd (xml_write sample_lib pkg) = None" using no_error [of pkg] by (metis snd_conv)
  then have "main sample_lib sample_args no_powershell ?m sample_fs
             = emit_installer sample_lib sample_args app installer
                 (fs1(manifest_path sample_args \<mapsto> File (fst (xml_write sample_lib pkg))))"
    using g flags(2) by (simp add: bind_io_lift)
  then show ?thesis using flags a b d e f subj by blast
qed

text \<open>
  C8. Every run with \<^verbatim>\<open>--gen-installer\<close> is of one of two kinds. Either it raises having
  changed at most the logo targets and the manifest's file: the installer block has touched
  nothing. Or the JSON document has a value at
  \<open>AppInstaller.UpdateSettings.AutomaticBackgroundTask\<close> and the installer block unlinks
  the descriptor file, serializes a tree into it and pads it, where the tree has, under
  \<open>UpdateSettings\<close>, an \<open>AutomaticBackgroundTask\<close> element exactly when that value is truthy,
  and the element is empty: no attribute, no text, no child. In a successful run the
  descriptor file therefore holds the padded serialization of such a tree, with the element
  present for \<^verbatim>\<open>true\<close> and absent for \<^verbatim>\<open>false\<close>. The descriptor file is the one that the
  file name of \<open>AppInstaller.Uri\<close> reaches from the destination directory.
\<close>

theorem automatic_background_task_presence:
  assumes "gen_installer args"
  shows "((\<exists>e fs'. main lib args powershell manifest fs = (Inl e, fs')
                  \<and> {p. fs' p \<noteq> fs p} \<subseteq> logo_targets args \<union> {manifest_path args})
          \<or> (\<exists>flag uri name tree fs2.
                 subscript3 manifest ''AppInstaller'' ''UpdateSettings'' ''AutomaticBackgroundTask'' = Inr flag
               \<and> subscript2 manifest ''AppInstaller'' ''Uri'' = Inr uri
               \<and> url_path_name lib uri = Inr name
               \<and> descend [''UpdateSettings'', ''AutomaticBackgroundTask''] tree
                   = (if truthy flag then Some (Element ''AutomaticBackgroundTask'' [] JNull []) else None)
               \<and> main lib args powershell manifest fs
                   = bind_io (unlink_missing_ok (path_join lib (destination_dir args) name))
                       (\<lambda>_. bind_io (write_xml lib (path_join lib (destination_dir args) name) tree)
                       (\<lambda>_. pad_app_installer (path_join lib (destination_dir args) name))) fs2))
         \<and> (\<forall>fs'. main lib args powershell manifest fs = (Inr (), fs') \<longrightarrow>
               (\<exists>flag uri name tree.
                  subscript3 manifest ''AppInstaller'' ''UpdateSettings'' ''AutomaticBackgroundTask'' = Inr flag
                \<and> subscript2 manifest ''AppInstaller'' ''Uri'' = Inr uri
                \<and> url_path_name lib uri = Inr name
                \<and> descend [''UpdateSettings'', ''AutomaticBackgroundTask''] tree
                    = (if truthy flag then Some (Element ''AutomaticBackgroundTask'' [] JNull []) else None)
                \<and> (flag = JBool True \<longrightarrow>
                      descend [''UpdateSettings'', ''AutomaticBackgroundTask''] tree
                      = Some (Element ''AutomaticBackgroundTask'' [] JNull []))
                \<and> (flag = JBool False \<longrightarrow>
                      descend [''UpdateSettings'', ''AutomaticBackgroundTask''] tree = None)
                \<and> snd (xml_write lib tree) = None
                \<and> fs' (path_join lib (destination_dir args) name)
                    = Some (File (fst (xml_write lib tree) @ [LF]
                                  @ replicate (4095 - length (fst (xml_write lib tree))) SP))))"
proof (intro conjI allI impI)
  show "(\<exists>e fs'. main lib args powershell manifest fs = (Inl e, fs')
                 \<and> {p. fs' p \<noteq> fs p} \<subseteq> logo_targets args \<union> {manifest_path args})
        \<or> (\<exists>flag uri name tree fs2.
               subscript3 manifest ''AppInstaller'' ''UpdateSettings'' ''AutomaticBackgroundTask'' = Inr flag
             \<and> subscript2 manifest ''AppInstaller'' ''Uri'' = Inr uri
             \<and> url_path_name lib uri = Inr name
             \<and> descend [''UpdateSettings'', ''AutomaticBackgroundTask''] tree
                 = (if truthy flag then Some (Element ''AutomaticBackgroundTask'' [] JNull []) else None)
             \<and> main lib args powershell manifest fs
                 = bind_io (unlink_missing_ok (path_join lib (destination_dir args) name))
                     (\<lambda>_. bind_io (write_xml lib (path_join lib (destination_dir args) name) tree)
                     (\<lambda>_. pad_app_installer (path_join lib (destination_dir args) name))) fs2)"
    by (rule installer_run_cases [OF assms])
next
  fix fs'
  assume "main lib args powershell manifest fs = (Inr (), fs')"
  then show "\<exists>flag uri name tree.
                  subscript3 manifest ''AppInstaller'' ''UpdateSettings'' ''AutomaticBackgroundTask'' = Inr flag
                \<and> subscript2 manifest ''AppInstaller'' ''Uri'' = Inr uri
                \<and> url_path_name lib uri = Inr name
                \<and> descend [''UpdateSettings'', ''AutomaticBackgroundTask''] tree
                    = (if truthy flag then Some (Element ''AutomaticBackgroundTask'' [] JNull []) else None)
                \<and> (flag = JBool True \<longrightarrow>
                      descend [''UpdateSettings'', ''AutomaticBackgroundTask''] tree
                      = Some (Element ''AutomaticBackgroundTask'' [] JNull []))
                \<and> (flag = JBool False \<longrightarrow>
                      descend [''UpdateSettings'', ''AutomaticBackgroundTask''] tree = None)
                \<and> snd (xml_write lib tree) = None
                \<and> fs' (path_join lib (destination_dir args) name)
                    = Some (File (fst (xml_write lib tree) @ [LF]
                                  @ replicate (4095 - length (fst (xml_write lib tree))) SP))"
    by (rule installer_run_ok [OF assms])
qed

theorem automatic_background_task_presence_witness:
  "gen_installer sample_args
   \<and> (\<exists>tree.
         descend [''UpdateSettings'', ''AutomaticBackgroundTask''] tree
         = Some (Element ''AutomaticBackgroundTask'' [] JNull [])
       \<and> snd (main sample_lib sample_args no_powershell
                (sample_manifest ''https://example.com/tool.appinstaller'') sample_fs)
             [''dist'', ''tool.appinstaller'']
          = Some (File (fst (xml_write sample_lib tree) @ [LF]
                        @ replicate (4095 - length (fst (xml_write sample_lib tree))) SP)))"
proof -
  let ?uri = "''https://example.com/tool.appinstaller''"
  let ?m = "sample_manifest ?uri"
  have flag: "gen_installer sample_args"
    by (simp add: sample_args_def)
  obtain fs' where ok: "main sample_lib sample_args no_powershell ?m sample_fs = (Inr (), fs')"
    using sample_main_ok by blast
  have k: "subscript3 ?m ''AppInstaller'' ''UpdateSettings'' ''AutomaticBackgroundTask'' = Inr (JBool True)"
          "subscript2 ?m ''AppInstaller'' ''Uri'' = Inr (JStr ?uri)"
    by (simp_all add: subscript3_def subscript2_def subscript_def then_do_def sample_manifest_def
                      sample_installer_manifest_def)
  have n: "url_path_name sample_lib (JStr ?uri) = Inr ''tool.appinstaller''"
    by (simp add: sample_lib_def last_split_on_Cons del: split_on.simps)
  have j: "path_join sample_lib (destination_dir sample_args) ''tool.appinstaller''
           = [''dist'', ''tool.appinstaller'']"
    by (simp add: sample_lib_def sample_args_def)
  from automatic_background_task_presence [OF flag, THEN conjunct2, rule_format, OF ok]
  obtain flg uri name tree where
      a: "subscript3 ?m ''AppInstaller'' ''UpdateSettings'' ''AutomaticBackgroundTask'' = Inr flg"
    and b: "subscript2 ?m ''AppInstaller'' ''Uri'' = Inr uri"
    and c: "url_path_name sample_lib uri = Inr name"
    and d: "flg = JBool True \<longrightarrow>
              descend [''UpdateSettings'', ''AutomaticBackgroundTask''] tree
              = Some (Element ''AutomaticBackgroundTask'' [] JNull [])"
    and e: "fs' (path_join sample_lib (destination_dir sample_args) name)
            = Some (File (fst (xml_write sample_lib tree) @ [LF]
                          @ replicate (4095 - length (fst (xml_write sample_lib tree))) SP))"
    by blast
  have "flg = JBool True" using a k(1) by simp
  moreover have "uri = JStr ?uri" using b k(2) by simp
  then have "name = ''tool.appinstaller''" using c n by simp
  ultimately have "descend [''UpdateSettings'', ''AutomaticBackgroundTask''] tree
                     = Some (Element ''AutomaticBackgroundTask'' [] JNull [])"
    and "snd (main sample_lib sample_args no_powershell ?m sample_fs) [''dist'', ''tool.appinstaller'']
         = Some (File (fst (xml_write sample_lib tree) @ [LF]
                       @ replicate (4095 - length (fst (xml_write sample_lib tree))) SP))"
    using d e j ok by simp_all
  then show ?thesis using flag by blast
qed

end
